theory Spec2Isabelle
  imports Complex_Main "HOL-Library.Word" "HOL-Library.AList"
begin

section \<open>Data model\<close>

text \<open>
  The C++ types are modelled as follows. \<^verbatim>\<open>std::string\<close> is \<^typ>\<open>string\<close>;
  \<^verbatim>\<open>int\<close> is a 32-bit word read with \<^term>\<open>sint\<close> (arithmetic wraps around),
  \<^verbatim>\<open>uint64_t\<close> a 64-bit word; \<^verbatim>\<open>double\<close> is the type \<open>double\<close> below, with its NaN,
  its infinities and its rounding; \<^verbatim>\<open>std::optional\<close> is \<^typ>\<open>'a option\<close>; a
  \<^verbatim>\<open>system_clock::time_point\<close> is a natural number of clock ticks.
\<close>

subsection \<open>Double-precision numbers\<close>

text \<open>
  A \<^verbatim>\<open>double\<close> is an IEEE 754 binary64 value: a NaN, an infinity, the negative zero, or
  a finite number \<open>Fin x\<close> (\<open>Fin 0\<close> is the positive zero). The type does not force \<open>x\<close>
  to be representable; the literals of the source and the results of the operations are
  rounded by \<open>to_double\<close>, so the values the code computes with are. The payload and sign
  of a NaN are not kept: the code never reads them.
\<close>

datatype double = NaN | NegInf | NegZero | Fin real | PosInf

instantiation double :: zero
begin

definition zero_double :: double where
  "zero_double = Fin 0"

instance ..

end

text \<open>
  The comparisons \<^verbatim>\<open><\<close>, \<^verbatim>\<open><=\<close> and \<^verbatim>\<open>>\<close>: every comparison with a NaN is false, the two
  zeros are equal, and the rest is the order of the extended real line.
\<close>

datatype extended = MinusInfinity | Finite real | PlusInfinity

fun ordered :: "double \<Rightarrow> extended option" where
  "ordered NaN = None"
| "ordered NegInf = Some MinusInfinity"
| "ordered NegZero = Some (Finite 0)"
| "ordered (Fin x) = Some (Finite x)"
| "ordered PosInf = Some PlusInfinity"

fun extended_less :: "extended \<Rightarrow> extended \<Rightarrow> bool" where
  "extended_less (Finite a) (Finite b) = (a < b)"
| "extended_less MinusInfinity (Finite b) = True"
| "extended_less MinusInfinity PlusInfinity = True"
| "extended_less (Finite a) PlusInfinity = True"
| "extended_less _ _ = False"

definition dlt :: "double \<Rightarrow> double \<Rightarrow> bool" where
  "dlt a b = (case (ordered a, ordered b) of
                (Some x, Some y) \<Rightarrow> extended_less x y
              | _ \<Rightarrow> False)"

definition dle :: "double \<Rightarrow> double \<Rightarrow> bool" where
  "dle a b = (case (ordered a, ordered b) of
                (Some x, Some y) \<Rightarrow> extended_less x y \<or> x = y
              | _ \<Rightarrow> False)"

definition dgt :: "double \<Rightarrow> double \<Rightarrow> bool" where
  "dgt a b = dlt b a"

text \<open>
  Rounding to the nearest double, ties to the even significand. \<open>binary_exponent n x\<close> is
  the exponent \<open>e\<close> with \<open>2^e \<le> x < 2^(e+1)\<close> of a positive \<open>x\<close>, found by at most \<open>n\<close>
  doublings or halvings; with \<open>n = 1100\<close> a search that runs out has left the range of
  the format, where the result (a subnormal number or an infinity) does not depend on
  the exponent found. A double has 53 significant bits, its exponent is at least
  \<open>-1022\<close>, and a rounded value of magnitude \<open>2^1024\<close> or more is an infinity.
\<close>

definition pow2 :: "int \<Rightarrow> real" where
  "pow2 k = (if 0 \<le> k then 2 ^ nat k else 1 / 2 ^ nat (- k))"

fun binary_exponent :: "nat \<Rightarrow> real \<Rightarrow> int" where
  "binary_exponent 0 x = 0"
| "binary_exponent (Suc n) x =
     (if x < 1 then binary_exponent n (2 * x) - 1
      else if 2 \<le> x then binary_exponent n (x / 2) + 1
      else 0)"

definition round_half_even :: "real \<Rightarrow> int" where
  "round_half_even z =
     (let f = \<lfloor>z\<rfloor> in
      if z - of_int f < 1 / 2 then f
      else if 1 / 2 < z - of_int f then f + 1
      else if even f then f else f + 1)"

definition to_double :: "real \<Rightarrow> double" where
  "to_double x =
     (let e = max (binary_exponent 1100 \<bar>x\<bar>) (- 1022);
          ulp = pow2 (e - 52);
          y = of_int (round_half_even (x / ulp)) * ulp
      in if pow2 1024 \<le> \<bar>y\<bar> then (if 0 < x then PosInf else NegInf)
         else if y = 0 \<and> x < 0 then NegZero
         else Fin y)"

text \<open>
  The arithmetic of the source: \<^verbatim>\<open>+\<close>, \<^verbatim>\<open>-\<close>, \<^verbatim>\<open>*\<close>, \<^verbatim>\<open>/\<close>, \<^verbatim>\<open>std::round\<close> and
  \<^verbatim>\<open>std::fabs\<close>. Each operation rounds its exact result once; a NaN operand gives NaN,
  and so do \<open>\<infinity> - \<infinity>\<close>, \<open>0 \<times> \<infinity>\<close>, \<open>\<infinity> / \<infinity>\<close> and \<open>0 / 0\<close>.
\<close>

definition is_infinite :: "double \<Rightarrow> bool" where
  "is_infinite a = (a = NegInf \<or> a = PosInf)"

definition is_zero :: "double \<Rightarrow> bool" where
  "is_zero a = (a = NegZero \<or> a = Fin 0)"

fun sign_bit :: "double \<Rightarrow> bool" where
  "sign_bit NegInf = True"
| "sign_bit NegZero = True"
| "sign_bit (Fin x) = (x < 0)"
| "sign_bit _ = False"

fun value_of :: "double \<Rightarrow> real" where
  "value_of (Fin x) = x"
| "value_of _ = 0"

text \<open>The rounded result of a product or quotient: a zero takes the sign \<open>s\<close>.\<close>

definition signed_round :: "bool \<Rightarrow> real \<Rightarrow> double" where
  "signed_round s x =
     (let r = to_double x
      in if is_zero r then (if s then NegZero else Fin 0) else r)"

definition dneg :: "double \<Rightarrow> double" where
  "dneg a =
     (case a of
        NaN \<Rightarrow> NaN
      | NegInf \<Rightarrow> PosInf
      | NegZero \<Rightarrow> Fin 0
      | Fin x \<Rightarrow> (if x = 0 then NegZero else Fin (- x))
      | PosInf \<Rightarrow> NegInf)"

definition dadd :: "double \<Rightarrow> double \<Rightarrow> double" where
  "dadd a b =
     (if a = NaN \<or> b = NaN then NaN
      else if is_infinite a then (if is_infinite b \<and> a \<noteq> b then NaN else a)
      else if is_infinite b then b
      else if value_of a + value_of b = 0
        then (if a = NegZero \<and> b = NegZero then NegZero else Fin 0)
      else to_double (value_of a + value_of b))"

definition dsub :: "double \<Rightarrow> double \<Rightarrow> double" where
  "dsub a b = dadd a (dneg b)"

definition dmul :: "double \<Rightarrow> double \<Rightarrow> double" where
  "dmul a b =
     (if a = NaN \<or> b = NaN then NaN
      else if is_infinite a \<or> is_infinite b
        then (if is_zero a \<or> is_zero b then NaN
              else if sign_bit a \<noteq> sign_bit b then NegInf else PosInf)
      else signed_round (sign_bit a \<noteq> sign_bit b) (value_of a * value_of b))"

definition ddiv :: "double \<Rightarrow> double \<Rightarrow> double" where
  "ddiv a b =
     (if a = NaN \<or> b = NaN then NaN
      else if is_infinite a
        then (if is_infinite b then NaN
              else if sign_bit a \<noteq> sign_bit b then NegInf else PosInf)
      else if is_infinite b then (if sign_bit a \<noteq> sign_bit b then NegZero else Fin 0)
      else if is_zero b
        then (if is_zero a then NaN
              else if sign_bit a \<noteq> sign_bit b then NegInf else PosInf)
      else signed_round (sign_bit a \<noteq> sign_bit b) (value_of a / value_of b))"

text \<open>\<^verbatim>\<open>std::round\<close>: to the nearest integer, halfway cases away from zero.\<close>

definition cround :: "real \<Rightarrow> real" where
  "cround x = (if 0 \<le> x then of_int \<lfloor>x + 1 / 2\<rfloor> else of_int \<lceil>x - 1 / 2\<rceil>)"

definition dround :: "double \<Rightarrow> double" where
  "dround a =
     (case a of
        Fin x \<Rightarrow> (if cround x = 0 \<and> x < 0 then NegZero else Fin (cround x))
      | _ \<Rightarrow> a)"

definition dfabs :: "double \<Rightarrow> double" where
  "dfabs a =
     (case a of
        NaN \<Rightarrow> NaN
      | NegInf \<Rightarrow> PosInf
      | NegZero \<Rightarrow> Fin 0
      | Fin x \<Rightarrow> Fin \<bar>x\<bar>
      | PosInf \<Rightarrow> PosInf)"

subsection \<open>Requests and results\<close>

datatype TradeType = BUY | SELL

record TradeRequest =
  clientId :: string
  requestId :: string
  tradeType :: TradeType
  symbol :: string
  volume :: double
  stopLoss :: "double option"
  takeProfit :: "double option"
  timestamp :: nat
  isTestBadRequest :: bool

datatype TradeStatus =
  SUCCESS | REJECTED | INVALID_PARAMS | CONNECTION_ERROR | MARGIN_ERROR | DUPLICATE
  | RETRY_EXHAUSTED

record TradeResult =
  requestId :: string
  clientId :: string
  status :: TradeStatus
  mtTicketId :: string
  executionPrice :: double
  errorMessage :: string
  retryCount :: "32 word"
  timestamp :: nat

definition isSuccess :: "TradeResult \<Rightarrow> bool" where
  "isSuccess r = (status r = SUCCESS)"

definition isRetryable :: "TradeResult \<Rightarrow> bool" where
  "isRetryable r = (status r = CONNECTION_ERROR \<or> status r = REJECTED)"

record SymbolInfo =
  name :: string
  bid :: double
  ask :: double
  minVolume :: double
  maxVolume :: double
  volumeStep :: double
  digits :: "32 word"
  tradeAllowed :: bool

record AccountInfo =
  login :: "32 word"
  balance :: double
  equity :: double
  freeMargin :: double
  marginLevel :: double
  currency :: string

text \<open>
  What a component does to the outside world is kept as a list of events, oldest first:
  the calls it makes on the broker interface \<^verbatim>\<open>IMTBrokerAPI\<close> and the sleeps it requests.
  Logger calls only write text and are left out.
\<close>

datatype event = GetSymbolInfo string | ExecuteTrade TradeRequest | SleepFor int

subsection \<open>Decimal rendering of integers (\<^verbatim>\<open>std::to_string\<close>)\<close>

fun digits_of :: "nat \<Rightarrow> string" where
  "digits_of n =
     (if n < 10 then [''0123456789'' ! n]
      else digits_of (n div 10) @ [''0123456789'' ! (n mod 10)])"

declare digits_of.simps [simp del]

definition to_string_int :: "int \<Rightarrow> string" where
  "to_string_int i = (if i < 0 then CHR ''-'' # digits_of (nat (- i)) else digits_of (nat i))"

section \<open>Validator\<close>

text \<open>
  The collaborators a single \<^verbatim>\<open>validate\<close> call consults and that are not part of the
  validator: the broker's answer to \<^verbatim>\<open>getSymbolInfo\<close>, the library's
  \<^verbatim>\<open>std::to_string(double)\<close>, and the clock reading used for the result's timestamp.
\<close>

record Externals =
  getSymbolInfo :: "string \<Rightarrow> SymbolInfo option"
  to_string_double :: "double \<Rightarrow> string"
  now :: nat

record Validator =
  seenRequests :: "string set"

definition Validator_init :: Validator where
  "Validator_init = \<lparr> seenRequests = {} \<rparr>"

definition makeError :: "Externals \<Rightarrow> TradeRequest \<Rightarrow> TradeStatus \<Rightarrow> string \<Rightarrow> TradeResult" where
  "makeError ext req st msg =
     \<lparr> requestId = TradeRequest.requestId req,
       clientId = TradeRequest.clientId req,
       status = st,
       mtTicketId = [],
       executionPrice = 0,
       errorMessage = msg,
       retryCount = 0,
       timestamp = now ext \<rparr>"

text \<open>
  \<^verbatim>\<open>Validator::validate\<close>. The result is the optional error, the broker calls made, and
  the validator with its updated set of seen request IDs.
\<close>

definition validate ::
  "Externals \<Rightarrow> TradeRequest \<Rightarrow> Validator \<Rightarrow> TradeResult option \<times> event list \<times> Validator" where
  "validate ext request v =
     (if TradeRequest.requestId request \<in> seenRequests v then
        (Some (makeError ext request DUPLICATE
                 (''Duplicate request ID: '' @ TradeRequest.requestId request)), [], v)
      else
        let v' = v\<lparr>seenRequests := insert (TradeRequest.requestId request) (seenRequests v)\<rparr> in
        if TradeRequest.clientId request = [] then
          (Some (makeError ext request INVALID_PARAMS ''Empty client ID''), [], v')
        else if symbol request = [] then
          (Some (makeError ext request INVALID_PARAMS ''Empty symbol''), [], v')
        else if dle (volume request) 0 then
          (Some (makeError ext request INVALID_PARAMS
                   (''Invalid volume: '' @ to_string_double ext (volume request))), [], v')
        else
          (case getSymbolInfo ext (symbol request) of
             None \<Rightarrow>
               (Some (makeError ext request INVALID_PARAMS
                        (''Unknown symbol: '' @ symbol request)),
                [GetSymbolInfo (symbol request)], v')
           | Some symbolInfo \<Rightarrow>
               if \<not> tradeAllowed symbolInfo then
                 (Some (makeError ext request REJECTED
                          (''Trading not allowed for: '' @ symbol request)),
                  [GetSymbolInfo (symbol request)], v')
               else if dlt (volume request) (minVolume symbolInfo)
                       \<or> dgt (volume request) (maxVolume symbolInfo) then
                 (Some (makeError ext request INVALID_PARAMS
                          (''Volume '' @ to_string_double ext (volume request)
                           @ '' outside range ['' @ to_string_double ext (minVolume symbolInfo)
                           @ '', '' @ to_string_double ext (maxVolume symbolInfo) @ '']'')),
                  [GetSymbolInfo (symbol request)], v')
               else if (case stopLoss request of None \<Rightarrow> False | Some sl \<Rightarrow> dle sl 0) then
                 (Some (makeError ext request INVALID_PARAMS
                          (''Invalid stop loss: ''
                           @ to_string_double ext (the (stopLoss request)))),
                  [GetSymbolInfo (symbol request)], v')
               else if (case takeProfit request of None \<Rightarrow> False | Some tp \<Rightarrow> dle tp 0) then
                 (Some (makeError ext request INVALID_PARAMS
                          (''Invalid take profit: ''
                           @ to_string_double ext (the (takeProfit request)))),
                  [GetSymbolInfo (symbol request)], v')
               else (None, [GetSymbolInfo (symbol request)], v')))"

text \<open>A sequence of \<^verbatim>\<open>validate\<close> calls on one validator, each with its own externals.\<close>

fun validate_all ::
  "(Externals \<times> TradeRequest) list \<Rightarrow> Validator
     \<Rightarrow> (TradeResult option \<times> event list) list \<times> Validator" where
  "validate_all [] v = ([], v)"
| "validate_all ((ext, request) # cs) v =
     (case validate ext request v of
        (res, tr, v') \<Rightarrow>
          (case validate_all cs v' of (outs, v'') \<Rightarrow> ((res, tr) # outs, v'')))"

section \<open>Retry executor\<close>

record ProcessorConfig =
  numWorkers :: "32 word"
  maxRetries :: "32 word"
  retryBaseMs :: "32 word"

text \<open>
  The backoff delay computed before attempt \<open>attempt > 0\<close>:
  \<^verbatim>\<open>int delayMs = config_.retryBaseMs * (1 << (attempt - 1))\<close>, in 32-bit arithmetic.
  Where the shift or the product leaves the range of \<^verbatim>\<open>int\<close>, C++ leaves the behaviour
  undefined; the words below wrap around, and a shift by 32 or more gives 0.
\<close>

definition delayMs :: "ProcessorConfig \<Rightarrow> 32 word \<Rightarrow> 32 word" where
  "delayMs config attempt = retryBaseMs config * push_bit (unat (attempt - 1)) 1"

text \<open>
  The \<^verbatim>\<open>for\<close> loop of \<^verbatim>\<open>DealProcessor::executeWithRetry\<close>, entered at the loop test with
  the current \<open>attempt\<close> and the local \<open>result\<close>. The broker is given by \<open>api\<close>:
  \<open>api n request\<close> is what the \<open>n\<close>-th call (counting from 0) of
  \<^verbatim>\<open>api_.executeTrade(request)\<close> made by this invocation returns; \<open>ncalls\<close> counts the calls
  made so far and \<open>trace\<close> collects the events. The counter is a C++ \<^verbatim>\<open>int\<close>, so the loop
  need not terminate (\<open>maxRetries = INT_MAX\<close>): not returning is the value \<open>None\<close>.
\<close>

partial_function (option) retry_loop ::
  "ProcessorConfig \<Rightarrow> (nat \<Rightarrow> TradeRequest \<Rightarrow> TradeResult) \<Rightarrow> TradeRequest
     \<Rightarrow> 32 word \<Rightarrow> nat \<Rightarrow> TradeResult \<Rightarrow> event list \<Rightarrow> (TradeResult \<times> event list) option"
where
  "retry_loop config api request attempt ncalls result trace =
     (if attempt \<le>s maxRetries config then
        let trace1 = (if 0 <s attempt
                      then trace @ [SleepFor (sint (delayMs config attempt))]
                      else trace);
            result1 = (api ncalls request)\<lparr>retryCount := attempt\<rparr>;
            trace2 = trace1 @ [ExecuteTrade request]
        in if isSuccess result1 \<or> \<not> isRetryable result1 then Some (result1, trace2)
           else retry_loop config api request (attempt + 1) (Suc ncalls) result1 trace2
      else
        Some (result\<lparr>status := RETRY_EXHAUSTED,
                errorMessage := ''All '' @ to_string_int (sint (maxRetries config + 1))
                                @ '' attempts failed. Last error: '' @ errorMessage result,
                retryCount := maxRetries config\<rparr>, trace))"

text \<open>
  \<^verbatim>\<open>DealProcessor::executeWithRetry\<close>. The argument \<open>uninit\<close> is the local
  \<^verbatim>\<open>TradeResult result;\<close> before the first assignment (its scalar fields are not
  initialised by the source).
\<close>

definition executeWithRetry ::
  "ProcessorConfig \<Rightarrow> (nat \<Rightarrow> TradeRequest \<Rightarrow> TradeResult) \<Rightarrow> TradeRequest \<Rightarrow> TradeResult
     \<Rightarrow> (TradeResult \<times> event list) option" where
  "executeWithRetry config api request uninit = retry_loop config api request 0 0 uninit []"

text \<open>
  The policy in the specification's words: attempt 0 at once, then before attempt
  \<open>n + 1\<close> a sleep of \<open>base \<times> 2^n\<close> milliseconds; \<open>backoff_trace request base k\<close> are the
  events of a run whose last attempt has index \<open>k\<close>.
\<close>

definition backoff_trace :: "TradeRequest \<Rightarrow> int \<Rightarrow> nat \<Rightarrow> event list" where
  "backoff_trace request base k =
     ExecuteTrade request
     # concat (map (\<lambda>n. [SleepFor (base * 2 ^ n), ExecuteTrade request]) [0..<k])"

text \<open>
  The delay \<open>base \<times> 2^n\<close> and the shift producing it are representable as a C++ \<^verbatim>\<open>int\<close>:
  the computation of \<^verbatim>\<open>delayMs\<close> before attempt \<open>n + 1\<close> has defined behaviour.
\<close>

definition delay_fits :: "32 word \<Rightarrow> nat \<Rightarrow> bool" where
  "delay_fits base n =
     (n < 31 \<and> - (2 ^ 31) \<le> sint base * 2 ^ n \<and> sint base * 2 ^ n < 2 ^ 31)"

section \<open>Work queue\<close>

record 'a ThreadSafeQueue =
  queue :: "'a list"
  shutdownFlag :: bool

definition ThreadSafeQueue_init :: "'a ThreadSafeQueue" where
  "ThreadSafeQueue_init = \<lparr> queue = [], shutdownFlag = False \<rparr>"

definition push :: "'a \<Rightarrow> 'a ThreadSafeQueue \<Rightarrow> 'a ThreadSafeQueue" where
  "push item q = q\<lparr>queue := queue q @ [item]\<rparr>"

text \<open>
  \<^verbatim>\<open>pop\<close> waits while the queue is empty and not shut down: in that state the call does
  not return, which is the outer \<open>None\<close>. Otherwise it returns the front item, or
  \<^verbatim>\<open>std::nullopt\<close> (the inner \<open>None\<close>) when the queue is empty after shutdown.
\<close>

definition pop :: "'a ThreadSafeQueue \<Rightarrow> ('a option \<times> 'a ThreadSafeQueue) option" where
  "pop q =
     (if \<not> (queue q \<noteq> [] \<or> shutdownFlag q) then None
      else (case queue q of
              [] \<Rightarrow> Some (None, q)
            | item # rest \<Rightarrow> Some (Some item, q\<lparr>queue := rest\<rparr>)))"

definition tryPop :: "'a ThreadSafeQueue \<Rightarrow> 'a option \<times> 'a ThreadSafeQueue" where
  "tryPop q =
     (case queue q of
        [] \<Rightarrow> (None, q)
      | item # rest \<Rightarrow> (Some item, q\<lparr>queue := rest\<rparr>))"

definition size_queue :: "'a ThreadSafeQueue \<Rightarrow> nat" where
  "size_queue q = length (queue q)"

definition empty_queue :: "'a ThreadSafeQueue \<Rightarrow> bool" where
  "empty_queue q = (queue q = [])"

definition shutdown :: "'a ThreadSafeQueue \<Rightarrow> 'a ThreadSafeQueue" where
  "shutdown q = q\<lparr>shutdownFlag := True\<rparr>"

text \<open>\<open>n\<close> consecutive \<^verbatim>\<open>pop\<close> calls and what they return; \<open>None\<close> if one of them waits.\<close>

fun pop_n :: "nat \<Rightarrow> 'a ThreadSafeQueue \<Rightarrow> ('a option list \<times> 'a ThreadSafeQueue) option" where
  "pop_n 0 q = Some ([], q)"
| "pop_n (Suc n) q =
     (case pop q of
        None \<Rightarrow> None
      | Some (r, q') \<Rightarrow>
          (case pop_n n q' of None \<Rightarrow> None | Some (rs, q'') \<Rightarrow> Some (r # rs, q'')))"

section \<open>Result tracker\<close>

text \<open>
  The two \<^verbatim>\<open>std::unordered_map\<close>s are association lists with distinct keys, updated with
  \<^const>\<open>AList.update\<close> and read with \<^const>\<open>map_of\<close>. The order in which
  \<^verbatim>\<open>getStats\<close> visits the entries is the list order; the source leaves it unspecified,
  and the counters do not depend on it.
\<close>

record ResultTracker =
  results :: "(string \<times> TradeResult) list"
  clientRequests :: "(string \<times> string list) list"

definition ResultTracker_init :: ResultTracker where
  "ResultTracker_init = \<lparr> results = [], clientRequests = [] \<rparr>"

text \<open>\<^verbatim>\<open>clientRequests_[c]\<close>, the empty vector when \<open>c\<close> has no entry.\<close>

definition clientRequestsOf :: "ResultTracker \<Rightarrow> string \<Rightarrow> string list" where
  "clientRequestsOf t c = (case map_of (clientRequests t) c of None \<Rightarrow> [] | Some ids \<Rightarrow> ids)"

text \<open>\<^verbatim>\<open>ResultTracker::record\<close>.\<close>

definition record_result :: "TradeResult \<Rightarrow> ResultTracker \<Rightarrow> ResultTracker" where
  "record_result result t =
     \<lparr> results = AList.update (requestId result) result (results t),
       clientRequests =
         AList.update (clientId result) (clientRequestsOf t (clientId result) @ [requestId result])
           (clientRequests t) \<rparr>"

definition record_all :: "TradeResult list \<Rightarrow> ResultTracker \<Rightarrow> ResultTracker" where
  "record_all rs t = foldl (\<lambda>t r. record_result r t) t rs"

definition getByRequestId :: "ResultTracker \<Rightarrow> string \<Rightarrow> TradeResult option" where
  "getByRequestId t rid = map_of (results t) rid"


record Stats =
  totalRequests :: "32 word"
  successful :: "32 word"
  rejected :: "32 word"
  errors :: "32 word"
  duplicates :: "32 word"

definition Stats_init :: Stats where
  "Stats_init = \<lparr> totalRequests = 0, successful = 0, rejected = 0, errors = 0, duplicates = 0 \<rparr>"

text \<open>The body of the loop in \<^verbatim>\<open>getStats\<close>: count the entry, then the \<^verbatim>\<open>switch\<close>.\<close>

definition tally :: "Stats \<Rightarrow> TradeResult \<Rightarrow> Stats" where
  "tally stats result =
     (let stats1 = stats\<lparr>totalRequests := totalRequests stats + 1\<rparr> in
      case status result of
        SUCCESS \<Rightarrow> stats1\<lparr>successful := successful stats1 + 1\<rparr>
      | DUPLICATE \<Rightarrow> stats1\<lparr>duplicates := duplicates stats1 + 1\<rparr>
      | REJECTED \<Rightarrow> stats1\<lparr>rejected := rejected stats1 + 1\<rparr>
      | MARGIN_ERROR \<Rightarrow> stats1\<lparr>rejected := rejected stats1 + 1\<rparr>
      | RETRY_EXHAUSTED \<Rightarrow> stats1\<lparr>rejected := rejected stats1 + 1\<rparr>
      | CONNECTION_ERROR \<Rightarrow> stats1\<lparr>errors := errors stats1 + 1\<rparr>
      | INVALID_PARAMS \<Rightarrow> stats1\<lparr>errors := errors stats1 + 1\<rparr>)"

definition getStats :: "ResultTracker \<Rightarrow> Stats" where
  "getStats t = foldl (\<lambda>stats (id, result). tally stats result) Stats_init (results t)"

section \<open>Mock broker\<close>

text \<open>
  \<^verbatim>\<open>MockMTAPI\<close>: the broker implementation shipped with the engine. What one
  \<^verbatim>\<open>executeTrade\<close> call takes from outside the object is gathered in \<open>MockDraws\<close>: the
  values drawn from \<^verbatim>\<open>failDist_\<close> for the failure test and for the slippage (each in
  \<open>[0, 1)\<close> when drawn by the library), the clock, \<^verbatim>\<open>std::to_string(double)\<close>, and the
  contents of the two scalar fields of the local \<^verbatim>\<open>TradeResult result;\<close> that the source
  declares without an initialiser. The sleep of \<^verbatim>\<open>simulateLatency\<close> does not enter the result and is left out.
\<close>

record MockDraws =
  failDraw :: double
  slippageDraw :: double
  clock :: nat
  fmt_double :: "double \<Rightarrow> string"
  uninit_status :: TradeStatus
  uninit_executionPrice :: double

record MockMTAPI =
  connected :: bool
  failureRate :: double
  ticketCounter :: "64 word"
  symbols :: "(string \<times> SymbolInfo) list"
  account :: AccountInfo
  executedTrades :: "(string \<times> TradeResult) list"

definition mkSymbol ::
  "string \<Rightarrow> double \<Rightarrow> double \<Rightarrow> double \<Rightarrow> double \<Rightarrow> double \<Rightarrow> 32 word \<Rightarrow> bool \<Rightarrow> SymbolInfo"
  where
  "mkSymbol n b a mn mx st dg al =
     \<lparr> name = n, bid = b, ask = a, minVolume = mn, maxVolume = mx, volumeStep = st,
       digits = dg, tradeAllowed = al \<rparr>"

text \<open>
  The constructor \<^verbatim>\<open>MockMTAPI::MockMTAPI(failureRate)\<close>. A decimal literal of the source
  is the double nearest to it.
\<close>

definition MockMTAPI_init :: "double \<Rightarrow> MockMTAPI" where
  "MockMTAPI_init rate =
     \<lparr> connected = False,
       failureRate = rate,
       ticketCounter = 100000,
       symbols =
         [(''EURUSD'', mkSymbol ''EURUSD'' (to_double (108450 / 100000)) (to_double (108465 / 100000))
                       (to_double (1 / 100)) (Fin 100) (to_double (1 / 100)) 5 True),
          (''GBPUSD'', mkSymbol ''GBPUSD'' (to_double (126320 / 100000)) (to_double (126340 / 100000))
                       (to_double (1 / 100)) (Fin 100) (to_double (1 / 100)) 5 True),
          (''USDJPY'', mkSymbol ''USDJPY'' (to_double (149850 / 1000)) (to_double (149865 / 1000))
                       (to_double (1 / 100)) (Fin 100) (to_double (1 / 100)) 3 True),
          (''AUDUSD'', mkSymbol ''AUDUSD'' (to_double (65230 / 100000)) (to_double (65248 / 100000))
                       (to_double (1 / 100)) (Fin 100) (to_double (1 / 100)) 5 True),
          (''USDCAD'', mkSymbol ''USDCAD'' (to_double (135720 / 100000)) (to_double (135738 / 100000))
                       (to_double (1 / 100)) (Fin 100) (to_double (1 / 100)) 5 True),
          (''XAUUSD'', mkSymbol ''XAUUSD'' (to_double (203550 / 100)) (to_double (203600 / 100))
                       (to_double (1 / 100)) (Fin 50) (to_double (1 / 100)) 2 True)],
       account =
         \<lparr> login = 12345, balance = Fin 100000, equity = Fin 100000, freeMargin = Fin 100000,
           marginLevel = 0, currency = ''USD'' \<rparr>,
       executedTrades = [] \<rparr>"

definition shouldFail :: "MockDraws \<Rightarrow> MockMTAPI \<Rightarrow> bool" where
  "shouldFail d m = dlt (failDraw d) (failureRate m)"

definition generatePrice :: "MockDraws \<Rightarrow> MockMTAPI \<Rightarrow> string \<Rightarrow> TradeType \<Rightarrow> double" where
  "generatePrice d m sy type =
     (case map_of (symbols m) sy of
        None \<Rightarrow> 0
      | Some info \<Rightarrow>
          (let basePrice = (if type = BUY then ask info else bid info);
               slippage = dmul (dsub (slippageDraw d) (Fin (1 / 2))) (to_double (5 / 100000))
           in dadd basePrice slippage))"

definition generateTicketId :: "MockMTAPI \<Rightarrow> string \<times> MockMTAPI" where
  "generateTicketId m =
     (digits_of (unat (ticketCounter m)), m\<lparr>ticketCounter := ticketCounter m + 1\<rparr>)"

text \<open>
  \<^verbatim>\<open>MockMTAPI::getSymbolInfo\<close>; \<open>draw\<close> is the value drawn for the price variation.
\<close>

definition MockMTAPI_getSymbolInfo :: "double \<Rightarrow> MockMTAPI \<Rightarrow> string \<Rightarrow> SymbolInfo option" where
  "MockMTAPI_getSymbolInfo draw m s =
     (case map_of (symbols m) s of
        None \<Rightarrow> None
      | Some info \<Rightarrow>
          (let variation = dmul (dsub draw (Fin (1 / 2))) (to_double (1 / 1000))
           in Some (info\<lparr>bid := dadd (bid info) variation, ask := dadd (ask info) variation\<rparr>)))"

text \<open>
  \<^verbatim>\<open>MockMTAPI::executeTrade\<close>. The local \<^verbatim>\<open>TradeResult result;\<close> is declared without an
  initialiser: its strings are empty, \<open>requestId\<close>, \<open>clientId\<close>, \<open>retryCount\<close> and
  \<open>timestamp\<close> are assigned at once, and \<open>status\<close> and \<open>executionPrice\<close> keep what the
  uninitialised fields hold until a branch assigns them, exactly as below.
\<close>

definition executeTrade :: "MockDraws \<Rightarrow> TradeRequest \<Rightarrow> MockMTAPI \<Rightarrow> TradeResult \<times> MockMTAPI" where
  "executeTrade d request m =
     (let result =
            \<lparr> requestId = TradeRequest.requestId request,
              clientId = TradeRequest.clientId request,
              status = uninit_status d,
              mtTicketId = [],
              executionPrice = uninit_executionPrice d,
              errorMessage = [],
              retryCount = 0,
              timestamp = clock d \<rparr>
      in
      if shouldFail d m then
        (result\<lparr>status := CONNECTION_ERROR,
                errorMessage := ''MT5 server connection timeout during DealerSend()''\<rparr>, m)
      else
        (case map_of (symbols m) (symbol request) of
           None \<Rightarrow>
             (result\<lparr>status := INVALID_PARAMS,
                     errorMessage := ''Symbol '' @ [CHR 0x27] @ symbol request @ [CHR 0x27]
                                     @ '' not found (SymbolGet failed)''\<rparr>, m)
         | Some symbolInfo \<Rightarrow>
             if \<not> tradeAllowed symbolInfo then
               (result\<lparr>status := REJECTED,
                       errorMessage := ''Trading disabled for symbol '' @ [CHR 0x27]
                                       @ symbol request @ [CHR 0x27]\<rparr>, m)
             else if dlt (volume request) (minVolume symbolInfo)
                     \<or> dgt (volume request) (maxVolume symbolInfo) then
               (result\<lparr>status := INVALID_PARAMS,
                       errorMessage := ''Volume '' @ fmt_double d (volume request)
                                       @ '' outside allowed range [''
                                       @ fmt_double d (minVolume symbolInfo) @ '', ''
                                       @ fmt_double d (maxVolume symbolInfo) @ '']''\<rparr>, m)
             else
               (let steps = ddiv (volume request) (volumeStep symbolInfo);
                    rounded = dround steps
                in
                if dgt (dfabs (dsub steps rounded)) (to_double (1 / 1000000)) then
                  (result\<lparr>status := INVALID_PARAMS,
                          errorMessage := ''Volume '' @ fmt_double d (volume request)
                                          @ '' not aligned to step ''
                                          @ fmt_double d (volumeStep symbolInfo)\<rparr>, m)
                else
                  (let requiredMargin = dmul (volume request) (Fin 1000) in
                   if dlt (freeMargin (account m)) requiredMargin then
                     (result\<lparr>status := MARGIN_ERROR,
                             errorMessage := ''Insufficient margin. Required: $''
                                             @ fmt_double d requiredMargin
                                             @ '', Available: $''
                                             @ fmt_double d (freeMargin (account m))\<rparr>, m)
                   else
                     (let m1 = m\<lparr>account := (account m)
                                   \<lparr>freeMargin := dsub (freeMargin (account m)) requiredMargin,
                                     equity := dsub (equity (account m))
                                                 (dmul requiredMargin (to_double (1 / 1000)))\<rparr>\<rparr>;
                          price = generatePrice d m1 (symbol request) (tradeType request);
                          (ticket, m2) = generateTicketId m1;
                          result1 = result\<lparr>status := SUCCESS, mtTicketId := ticket,
                                           executionPrice := price\<rparr>
                      in (result1,
                          m2\<lparr>executedTrades := AList.update ticket result1 (executedTrades m2)\<rparr>))))))"

section \<open>Deal processor\<close>

text \<open>
  \<^verbatim>\<open>DealProcessor::processRequest\<close>: validate, then execute with retries. The trace is
  that of the validator followed by that of the retry loop.
\<close>

definition processRequest ::
  "ProcessorConfig \<Rightarrow> Externals \<Rightarrow> (nat \<Rightarrow> TradeRequest \<Rightarrow> TradeResult) \<Rightarrow> TradeResult
     \<Rightarrow> TradeRequest \<Rightarrow> Validator \<Rightarrow> (TradeResult \<times> event list \<times> Validator) option" where
  "processRequest config ext api uninit request v =
     (case validate ext request v of
        (Some validationError, tr, v') \<Rightarrow> Some (validationError, tr, v')
      | (None, tr, v') \<Rightarrow>
          (case executeWithRetry config api request uninit of
             None \<Rightarrow> None
           | Some (result, tr2) \<Rightarrow> Some (result, tr @ tr2, v')))"

text \<open>
  The broker as one \<^verbatim>\<open>executeWithRetry\<close> invocation sees it when it is a \<^verbatim>\<open>MockMTAPI\<close>
  that nothing else calls meanwhile: call number \<open>n\<close> runs with its own draws on the
  state left by the calls before it.
\<close>

fun mock_state :: "(nat \<Rightarrow> MockDraws) \<Rightarrow> TradeRequest \<Rightarrow> MockMTAPI \<Rightarrow> nat \<Rightarrow> MockMTAPI" where
  "mock_state draws request m 0 = m"
| "mock_state draws request m (Suc n) =
     snd (executeTrade (draws n) request (mock_state draws request m n))"

definition mock_api :: "(nat \<Rightarrow> MockDraws) \<Rightarrow> MockMTAPI \<Rightarrow> nat \<Rightarrow> TradeRequest \<Rightarrow> TradeResult" where
  "mock_api draws m n request = fst (executeTrade (draws n) request (mock_state draws request m n))"

section \<open>The specification's tables\<close>












text \<open>The status aggregation table of the tracker.\<close>

datatype bucket = Successful | Rejected | Errors | Duplicates

fun bucket_of :: "TradeStatus \<Rightarrow> bucket" where
  "bucket_of SUCCESS = Successful"
| "bucket_of DUPLICATE = Duplicates"
| "bucket_of REJECTED = Rejected"
| "bucket_of MARGIN_ERROR = Rejected"
| "bucket_of RETRY_EXHAUSTED = Rejected"
| "bucket_of CONNECTION_ERROR = Errors"
| "bucket_of INVALID_PARAMS = Errors"

definition in_bucket :: "ResultTracker \<Rightarrow> bucket \<Rightarrow> nat" where
  "in_bucket t b = length (filter (\<lambda>(rid, r). bucket_of (status r) = b) (results t))"

section \<open>Auxiliary notions used in the statements\<close>

text \<open>An outcome of \<^verbatim>\<open>validate\<close> is a duplicate rejection when it carries status \<open>DUPLICATE\<close>.\<close>

definition is_duplicate :: "TradeResult option \<times> event list \<Rightarrow> bool" where
  "is_duplicate out = (case fst out of None \<Rightarrow> False | Some e \<Rightarrow> status e = DUPLICATE)"

text \<open>
  Among the calls \<open>cs\<close> with their outcomes \<open>outs\<close>: how many calls carry request ID
  \<open>x\<close>, and how many of those were, respectively were not, answered \<open>DUPLICATE\<close>.
\<close>

definition non_duplicate_count ::
  "string \<Rightarrow> (Externals \<times> TradeRequest) list \<Rightarrow> (TradeResult option \<times> event list) list \<Rightarrow> nat" where
  "non_duplicate_count x cs outs =
     length (filter (\<lambda>(c, out). TradeRequest.requestId (snd c) = x \<and> \<not> is_duplicate out) (zip cs outs))"

definition duplicate_count ::
  "string \<Rightarrow> (Externals \<times> TradeRequest) list \<Rightarrow> (TradeResult option \<times> event list) list \<Rightarrow> nat" where
  "duplicate_count x cs outs =
     length (filter (\<lambda>(c, out). TradeRequest.requestId (snd c) = x \<and> is_duplicate out) (zip cs outs))"

definition calls_with :: "string \<Rightarrow> (Externals \<times> TradeRequest) list \<Rightarrow> nat" where
  "calls_with x cs = length (filter (\<lambda>c. TradeRequest.requestId (snd c) = x) cs)"

text \<open>The broker calls in a trace, and the events of attempt number \<open>n\<close> of the retry loop.\<close>

definition is_ExecuteTrade :: "event \<Rightarrow> bool" where
  "is_ExecuteTrade e = (case e of ExecuteTrade r \<Rightarrow> True | _ \<Rightarrow> False)"

definition attempt_events :: "ProcessorConfig \<Rightarrow> TradeRequest \<Rightarrow> nat \<Rightarrow> event list" where
  "attempt_events config request n =
     (if 0 < n then [SleepFor (sint (delayMs config (of_nat n)))] else [])
     @ [ExecuteTrade request]"

subsection \<open>Concrete inputs\<close>

text \<open>
  A request for 0.1 lots of EURUSD, a configuration with three retries and a base delay
  of 10 ms, broker results with a given status, ticket, price (a decimal, rounded to the
  nearest double) and message, and brokers that always fail or fail twice.
\<close>

definition example_request :: TradeRequest where
  "example_request =
     \<lparr> TradeRequest.clientId = ''C1'', requestId = ''C1-000000'', tradeType = BUY, symbol = ''EURUSD'',
       volume = to_double (1 / 10), stopLoss = None, takeProfit = None, timestamp = 0,
       isTestBadRequest = False \<rparr>"

definition example_config :: ProcessorConfig where
  "example_config = \<lparr> numWorkers = 1, maxRetries = 3, retryBaseMs = 10 \<rparr>"

definition broker_result :: "TradeRequest \<Rightarrow> TradeStatus \<Rightarrow> string \<Rightarrow> real \<Rightarrow> string \<Rightarrow> TradeResult" where
  "broker_result request st ticket price msg =
     \<lparr> requestId = TradeRequest.requestId request, clientId = TradeRequest.clientId request,
       status = st, mtTicketId = ticket, executionPrice = to_double price, errorMessage = msg,
       retryCount = 0, timestamp = 0 \<rparr>"

definition always_failing :: "nat \<Rightarrow> TradeRequest \<Rightarrow> TradeResult" where
  "always_failing n request = broker_result request CONNECTION_ERROR [] 0 ''timeout''"

definition failing_twice :: "nat \<Rightarrow> TradeRequest \<Rightarrow> TradeResult" where
  "failing_twice n request =
     (if n < 2 then broker_result request CONNECTION_ERROR [] 0 ''timeout''
      else broker_result request SUCCESS ''100000'' (108465 / 100000) [])"

definition example_externals :: Externals where
  "example_externals =
     \<lparr> getSymbolInfo =
         (\<lambda>s. if s = ''EURUSD''
              then Some (mkSymbol ''EURUSD'' (to_double (108450 / 100000))
                           (to_double (108465 / 100000)) (to_double (1 / 100)) (Fin 100)
                           (to_double (1 / 100)) 5 True)
              else None),
       to_string_double = (\<lambda>x. ''0.000000''),
       now = 0 \<rparr>"

definition mock_externals :: Externals where
  "mock_externals =
     \<lparr> getSymbolInfo = MockMTAPI_getSymbolInfo (Fin (1 / 2)) (MockMTAPI_init 0),
       to_string_double = (\<lambda>x. ''0.000000''),
       now = 0 \<rparr>"

definition zero_volume_request :: TradeRequest where
  "zero_volume_request = example_request\<lparr>tradeType := SELL, volume := 0, isTestBadRequest := True\<rparr>"

text \<open>
  The result most recently recorded under a request ID in a sequence of \<^verbatim>\<open>record\<close> calls,
  and the tracker's index invariant as a computable check: every request ID listed for a
  client is a key of \<open>results\<close> whose stored result belongs to that client.
\<close>

definition latest :: "TradeResult list \<Rightarrow> string \<Rightarrow> TradeResult option" where
  "latest rs rid = find (\<lambda>r. requestId r = rid) (rev rs)"

definition tracker_consistent :: "ResultTracker \<Rightarrow> bool" where
  "tracker_consistent t =
     list_all (\<lambda>(c, ids).
                 list_all (\<lambda>rid. case map_of (results t) rid of
                                   None \<Rightarrow> False
                                 | Some res \<Rightarrow> clientId res = c) ids)
       (clientRequests t)"

definition executed_result :: TradeResult where
  "executed_result = broker_result example_request SUCCESS ''100000'' (108465 / 100000) []"

definition duplicate_from_other_client :: TradeResult where
  "duplicate_from_other_client =
     makeError example_externals (example_request\<lparr>TradeRequest.clientId := ''C2''\<rparr>) DUPLICATE
       (''Duplicate request ID: '' @ ''C1-000000'')"

definition rejected_result :: TradeResult where
  "rejected_result =
     makeError example_externals
       (example_request\<lparr>TradeRequest.requestId := ''C1-000001'', symbol := ''INVALID''\<rparr>)
       INVALID_PARAMS (''Unknown symbol: '' @ ''INVALID'')"

definition misaligned_request :: TradeRequest where
  "misaligned_request = example_request\<lparr>volume := to_double (15 / 1000)\<rparr>"


definition example_draws :: "double \<Rightarrow> MockDraws" where
  "example_draws p =
     \<lparr> failDraw = Fin (1 / 2), slippageDraw = Fin (1 / 2), clock = 0,
       fmt_double = (\<lambda>x. ''0.000000''), uninit_status = SUCCESS,
       uninit_executionPrice = p \<rparr>"

section \<open>Doubles: order and rounding\<close>

text \<open>
  The comparisons on finite numbers and on NaN, the doubles nearest to the decimal
  literals used below, and bounds on a rounded result: rounding does not cross a power
  of two.
\<close>

lemma binary_exponent_numeral:
  "binary_exponent (numeral k) x =
     (if x < 1 then binary_exponent (pred_numeral k) (2 * x) - 1
      else if 2 \<le> x then binary_exponent (pred_numeral k) (x / 2) + 1
      else 0)"
  by (simp add: numeral_eq_Suc)

lemma dlt_Fin [simp]: "dlt (Fin a) (Fin b) = (a < b)"
  by (simp add: dlt_def)

lemma dle_Fin [simp]: "dle (Fin a) (Fin b) = (a \<le> b)"
  by (auto simp: dle_def)

lemma dgt_Fin [simp]: "dgt (Fin a) (Fin b) = (b < a)"
  by (simp add: dgt_def)

lemma compare_NaN [simp]:
  "dlt NaN b = False" "dlt a NaN = False" "dle NaN b = False" "dle a NaN = False"
  "dgt NaN b = False" "dgt a NaN = False"
  by (simp_all add: dlt_def dle_def dgt_def split: option.splits)



lemma to_double_values:
  "to_double (1 / 10) = Fin (3602879701896397 / 36028797018963968)"
  "to_double (1 / 100) = Fin (5764607523034235 / 576460752303423488)"
  "to_double (3 / 200) = Fin (1080863910568919 / 72057594037927936)"
  "to_double (1 / 1000000) = Fin (4722366482869645 / 4722366482869645213696)"
  by (simp_all add: to_double_def binary_exponent_numeral round_half_even_def pow2_def Let_def)

text \<open>Powers of two.\<close>

lemma pow2_powr: "pow2 k = 2 powr (of_int k)"
proof (cases "0 \<le> k")
  case True
  have "(2::real) powr real (nat k) = 2 ^ nat k" by (simp add: powr_realpow)
  moreover have "real (nat k) = real_of_int k" using True by simp
  ultimately show ?thesis using True by (simp add: pow2_def)
next
  case False
  have "(2::real) powr - real (nat (- k)) = 1 / 2 ^ nat (- k)"
    by (simp add: powr_minus_divide powr_realpow)
  moreover have "- real (nat (- k)) = real_of_int k" using False by simp
  ultimately show ?thesis using False by (simp add: pow2_def)
qed

lemma pow2_pos [simp]: "0 < pow2 k"
  by (simp add: pow2_powr)

lemma pow2_add: "pow2 (a + b) = pow2 a * pow2 b"
  by (simp add: pow2_powr powr_add)

lemma pow2_diff: "pow2 (a - b) = pow2 a / pow2 b"
  by (simp add: pow2_powr powr_diff)

lemma pow2_mono: "a \<le> b \<Longrightarrow> pow2 a \<le> pow2 b"
  by (simp add: pow2_powr)

lemma pow2_less_cancel: "pow2 a < pow2 b \<Longrightarrow> a < b"
  by (simp add: pow2_powr)

lemma pow2_le_cancel: "pow2 a \<le> pow2 b \<Longrightarrow> a \<le> b"
  by (simp add: pow2_powr)

lemma pow2_0 [simp]: "pow2 0 = 1"
  by (simp add: pow2_def)

lemma pow2_1 [simp]: "pow2 1 = 2"
  by (simp add: pow2_def)

lemma pow2_Suc: "pow2 (k + 1) = 2 * pow2 k"
  by (simp add: pow2_add)

lemma pow2_pred: "pow2 (k - 1) = pow2 k / 2"
  by (simp add: pow2_diff)

lemma pow2_of_nat: "pow2 (int n) = of_int (2 ^ n)"
  by (simp add: pow2_def)

text \<open>The exponent found is below every power of two that bounds the number.\<close>

lemma binary_exponent_le:
  "x \<le> pow2 k \<Longrightarrow> - int n \<le> k \<Longrightarrow> binary_exponent n x \<le> k"
proof (induction n arbitrary: x k)
  case 0
  then show ?case by simp
next
  case (Suc n)
  show ?case
  proof (cases "x < 1")
    case True
    have "2 * x \<le> pow2 (k + 1)" using Suc.prems(1) by (simp add: pow2_Suc)
    then have "binary_exponent n (2 * x) \<le> k + 1"
      using Suc.prems(2) by (intro Suc.IH) auto
    then show ?thesis using True by simp
  next
    case False
    show ?thesis
    proof (cases "2 \<le> x")
      case True
      then have "pow2 1 \<le> pow2 k" using Suc.prems(1) by (simp add: pow2_def)
      then have k: "1 \<le> k" by (rule pow2_le_cancel)
      have "x / 2 \<le> pow2 (k - 1)" using Suc.prems(1) by (simp add: pow2_pred)
      then have "binary_exponent n (x / 2) \<le> k - 1"
        using k by (intro Suc.IH) auto
      then show ?thesis using True False by simp
    next
      case F2: False
      have "pow2 0 \<le> pow2 k" using False Suc.prems(1) by simp
      then have "0 \<le> k" by (rule pow2_le_cancel)
      then show ?thesis using False F2 by simp
    qed
  qed
qed

text \<open>It is above every exponent whose power of two the number reaches.\<close>

lemma binary_exponent_ge:
  "pow2 k \<le> x \<Longrightarrow> k \<le> int n \<Longrightarrow> - int n \<le> k \<Longrightarrow> k \<le> binary_exponent n x"
proof (induction n arbitrary: x k)
  case 0
  then show ?case by simp
next
  case (Suc n)
  show ?case
  proof (cases "x < 1")
    case True
    then have "pow2 k < pow2 0" using Suc.prems(1) by simp
    then have k: "k < 0" by (rule pow2_less_cancel)
    have "pow2 (k + 1) \<le> 2 * x" using Suc.prems(1) by (simp add: pow2_Suc)
    then have "k + 1 \<le> binary_exponent n (2 * x)"
      using k Suc.prems(3) by (intro Suc.IH) auto
    then show ?thesis using True by simp
  next
    case False
    show ?thesis
    proof (cases "2 \<le> x")
      case True
      have "k - 1 \<le> binary_exponent n (x / 2)"
      proof (cases "1 \<le> k")
        case k: True
        have "pow2 (k - 1) \<le> x / 2" using Suc.prems(1) by (simp add: pow2_pred)
        then show ?thesis using k Suc.prems(2) by (intro Suc.IH) auto
      next
        case k: False
        have "pow2 0 \<le> x / 2" using True by simp
        then have "0 \<le> binary_exponent n (x / 2)" by (intro Suc.IH) auto
        then show ?thesis using k by simp
      qed
      then show ?thesis using True False by simp
    next
      case F2: False
      then have "pow2 k < pow2 1" using Suc.prems(1) by (simp add: pow2_def)
      then have "k < 1" by (rule pow2_less_cancel)
      then show ?thesis using False F2 by simp
    qed
  qed
qed

text \<open>Its power of two is below the number, unless the search ran out.\<close>

lemma pow2_binary_exponent_le:
  "pow2 (- int n) \<le> x \<Longrightarrow> pow2 (binary_exponent n x) \<le> x"
proof (induction n arbitrary: x)
  case 0
  then show ?case by simp
next
  case (Suc n)
  show ?case
  proof (cases "x < 1")
    case True
    have "- int n = - int (Suc n) + 1" by simp
    then have "pow2 (- int n) = 2 * pow2 (- int (Suc n))"
      by (simp only: pow2_Suc)
    then have "pow2 (- int n) \<le> 2 * x" using Suc.prems by simp
    then have "pow2 (binary_exponent n (2 * x)) \<le> 2 * x" by (rule Suc.IH)
    then show ?thesis using True by (simp add: pow2_pred)
  next
    case False
    show ?thesis
    proof (cases "2 \<le> x")
      case True
      have "pow2 (- int n) \<le> pow2 0" by (rule pow2_mono) simp
      then have "pow2 (- int n) \<le> x / 2" using True by simp
      then have "pow2 (binary_exponent n (x / 2)) \<le> x / 2" by (rule Suc.IH)
      then show ?thesis using True False by (simp add: pow2_Suc)
    next
      case F2: False
      then show ?thesis using False by simp
    qed
  qed
qed

lemma round_half_even_cases:
  "round_half_even z = \<lfloor>z\<rfloor> \<or> (round_half_even z = \<lfloor>z\<rfloor> + 1 \<and> of_int \<lfloor>z\<rfloor> < z)"
  by (auto simp: round_half_even_def Let_def)

lemma round_half_even_ge: "of_int N \<le> z \<Longrightarrow> N \<le> round_half_even z"
proof -
  assume "of_int N \<le> z"
  then have "N \<le> \<lfloor>z\<rfloor>" by (simp add: le_floor_iff)
  then show ?thesis using round_half_even_cases [of z] by auto
qed

lemma round_half_even_le: "z \<le> of_int N \<Longrightarrow> round_half_even z \<le> N"
proof -
  assume z: "z \<le> of_int N"
  then have f: "\<lfloor>z\<rfloor> \<le> N" by (simp add: floor_le_iff)
  consider "round_half_even z = \<lfloor>z\<rfloor>"
    | "round_half_even z = \<lfloor>z\<rfloor> + 1" "of_int \<lfloor>z\<rfloor> < z"
    using round_half_even_cases [of z] by blast
  then show ?thesis
  proof cases
    case 1
    then show ?thesis using f by simp
  next
    case 2
    then have "of_int \<lfloor>z\<rfloor> < (of_int N :: real)" using z by linarith
    then have "\<lfloor>z\<rfloor> < N" by simp
    then show ?thesis using 2 by simp
  qed
qed

lemma pow2_strict_mono: "a < b \<Longrightarrow> pow2 a < pow2 b"
  by (simp add: pow2_powr)

lemma pow2_nonneg_exponent: "0 \<le> k \<Longrightarrow> pow2 k = of_int (2 ^ nat k)"
  by (simp add: pow2_def)

text \<open>Rounding does not cross a power of two.\<close>

lemma to_double_within:
  assumes "\<bar>x\<bar> \<le> pow2 k" and "- 1022 \<le> k" and "k \<le> 1023"
  shows "to_double x = NegZero \<or> (\<exists>y. to_double x = Fin y \<and> \<bar>y\<bar> \<le> pow2 k)"
proof -
  define e where "e = max (binary_exponent 1100 \<bar>x\<bar>) (- 1022)"
  define ulp where "ulp = pow2 (e - 52)"
  define m where "m = round_half_even (x / ulp)"
  define N :: int where "N = 2 ^ nat (k - e + 52)"
  have "binary_exponent 1100 \<bar>x\<bar> \<le> k"
    using assms(1,2) by (intro binary_exponent_le) auto
  then have e_le: "e \<le> k" using assms(2) by (simp add: e_def)
  have ulp_pos: "0 < ulp" by (simp add: ulp_def)
  have "real_of_int N = pow2 (k - e + 52)"
    using e_le by (simp add: N_def pow2_nonneg_exponent)
  then have N: "real_of_int N * ulp = pow2 k"
    by (simp add: ulp_def pow2_add [symmetric])
  have "\<bar>x\<bar> \<le> real_of_int N * ulp" using assms(1) N by simp
  then have "\<bar>x\<bar> / ulp \<le> real_of_int N" using ulp_pos by (simp add: field_simps)
  then have "\<bar>x / ulp\<bar> \<le> real_of_int N" using ulp_pos by simp
  then have up: "x / ulp \<le> real_of_int N" and low: "real_of_int (- N) \<le> x / ulp"
    unfolding of_int_minus by linarith+
  have "m \<le> N" unfolding m_def using up by (rule round_half_even_le)
  moreover have "- N \<le> m" unfolding m_def using low by (rule round_half_even_ge)
  ultimately have "m \<le> N" and "- N \<le> m" by simp_all
  then have "\<bar>real_of_int m\<bar> \<le> real_of_int N" by linarith
  then have "\<bar>real_of_int m\<bar> * ulp \<le> real_of_int N * ulp"
    using ulp_pos by (simp add: mult_right_mono)
  then have y: "\<bar>real_of_int m * ulp\<bar> \<le> pow2 k"
    using ulp_pos N by (simp add: abs_mult)
  have "pow2 k < pow2 1024" using assms(3) by (intro pow2_strict_mono) simp
  then have fin: "\<not> pow2 1024 \<le> \<bar>real_of_int m * ulp\<bar>" using y by linarith
  have "to_double x = (if real_of_int m * ulp = 0 \<and> x < 0 then NegZero
                        else Fin (real_of_int m * ulp))"
    using fin unfolding to_double_def Let_def e_def [symmetric] ulp_def [symmetric]
      m_def [symmetric]
    by simp
  then show ?thesis using y by auto
qed

lemma to_double_above:
  assumes "pow2 k \<le> x" and "- 1022 \<le> k" and "k \<le> 1023"
  shows "to_double x = PosInf \<or> (\<exists>y. to_double x = Fin y \<and> pow2 k \<le> y)"
proof -
  define e where "e = max (binary_exponent 1100 \<bar>x\<bar>) (- 1022)"
  define ulp where "ulp = pow2 (e - 52)"
  define m where "m = round_half_even (x / ulp)"
  have x_pos: "0 < x" using assms(1) pow2_pos [of k] by linarith
  then have ax: "\<bar>x\<bar> = x" by simp
  have k_le: "k \<le> binary_exponent 1100 x"
    using assms by (intro binary_exponent_ge) auto
  then have e: "e = binary_exponent 1100 x" using assms(2) by (simp add: e_def ax)
  have "pow2 (- int 1100) \<le> pow2 k" using assms(2) by (intro pow2_mono) simp
  then have "pow2 (- int 1100) \<le> x" using assms(1) by linarith
  then have "pow2 (binary_exponent 1100 x) \<le> x" by (rule pow2_binary_exponent_le)
  then have e_le: "pow2 e \<le> x" by (simp add: e)
  have ulp_pos: "0 < ulp" by (simp add: ulp_def)
  have split: "pow2 e = real_of_int (2 ^ 52) * ulp"
  proof -
    have "pow2 e = pow2 (52 + (e - 52))" by simp
    also have "\<dots> = pow2 52 * pow2 (e - 52)" by (rule pow2_add)
    finally show ?thesis by (simp add: ulp_def pow2_def)
  qed
  then have "real_of_int (2 ^ 52) * ulp \<le> x" using e_le by simp
  then have "real_of_int (2 ^ 52) \<le> x / ulp" using ulp_pos by (simp add: field_simps)
  then have "2 ^ 52 \<le> m" unfolding m_def by (rule round_half_even_ge)
  then have "real_of_int (2 ^ 52) \<le> real_of_int m" by linarith
  then have "real_of_int (2 ^ 52) * ulp \<le> real_of_int m * ulp"
    using ulp_pos by (simp add: mult_right_mono)
  then have "pow2 e \<le> real_of_int m * ulp" using split by simp
  moreover have "pow2 k \<le> pow2 e" using k_le e by (intro pow2_mono) simp
  ultimately have y: "pow2 k \<le> real_of_int m * ulp" by linarith
  then have y_pos: "0 < real_of_int m * ulp" using pow2_pos [of k] by linarith
  have "to_double x = (if pow2 1024 \<le> \<bar>real_of_int m * ulp\<bar> then PosInf
                        else Fin (real_of_int m * ulp))"
    using x_pos y_pos unfolding to_double_def Let_def e_def [symmetric] ulp_def [symmetric]
      m_def [symmetric]
    by simp
  then show ?thesis using y by auto
qed

lemma to_double_between:
  assumes "pow2 j \<le> x" and "x \<le> pow2 k" and "- 1022 \<le> j" and "k \<le> 1023"
  shows "\<exists>y. to_double x = Fin y \<and> pow2 j \<le> y \<and> y \<le> pow2 k"
proof -
  have x_pos: "0 < x" using assms(1) pow2_pos [of j] by linarith
  have "pow2 j \<le> pow2 k" using assms(1,2) by linarith
  then have jk: "j \<le> k" by (rule pow2_le_cancel)
  have "\<bar>x\<bar> \<le> pow2 k" using x_pos assms(2) by simp
  then have "to_double x = NegZero \<or> (\<exists>y. to_double x = Fin y \<and> \<bar>y\<bar> \<le> pow2 k)"
    using jk assms(3,4) by (intro to_double_within) auto
  moreover have "to_double x = PosInf \<or> (\<exists>y. to_double x = Fin y \<and> pow2 j \<le> y)"
    using assms(1,3) jk assms(4) by (intro to_double_above) auto
  ultimately show ?thesis by auto
qed

text \<open>Sums and products of finite doubles, bounded by a power of two.\<close>

lemma dadd_within:
  assumes "a = NegZero \<or> (\<exists>y. a = Fin y)" and "b = NegZero \<or> (\<exists>y. b = Fin y)"
    and "\<bar>value_of a + value_of b\<bar> \<le> pow2 k" and "- 1022 \<le> k" and "k \<le> 1023"
  shows "(dadd a b = NegZero \<or> (\<exists>y. dadd a b = Fin y)) \<and> \<bar>value_of (dadd a b)\<bar> \<le> pow2 k"
proof -
  have fin: "a \<noteq> NaN" "b \<noteq> NaN" "\<not> is_infinite a" "\<not> is_infinite b"
    using assms(1,2) by (auto simp: is_infinite_def)
  have r: "to_double (value_of a + value_of b) = NegZero
           \<or> (\<exists>y. to_double (value_of a + value_of b) = Fin y \<and> \<bar>y\<bar> \<le> pow2 k)"
    using assms(3,4,5) by (rule to_double_within)
  have "0 \<le> pow2 k" using pow2_pos [of k] by linarith
  then show ?thesis
    using r by (auto simp: dadd_def fin)
qed

lemma dmul_within:
  assumes "a = NegZero \<or> (\<exists>y. a = Fin y)" and "b = NegZero \<or> (\<exists>y. b = Fin y)"
    and "\<bar>value_of a * value_of b\<bar> \<le> pow2 k" and "- 1022 \<le> k" and "k \<le> 1023"
  shows "(dmul a b = NegZero \<or> (\<exists>y. dmul a b = Fin y)) \<and> \<bar>value_of (dmul a b)\<bar> \<le> pow2 k"
proof -
  have fin: "a \<noteq> NaN" "b \<noteq> NaN" "\<not> is_infinite a" "\<not> is_infinite b"
    using assms(1,2) by (auto simp: is_infinite_def)
  have r: "to_double (value_of a * value_of b) = NegZero
           \<or> (\<exists>y. to_double (value_of a * value_of b) = Fin y \<and> \<bar>y\<bar> \<le> pow2 k)"
    using assms(3,4,5) by (rule to_double_within)
  have "0 \<le> pow2 k" using pow2_pos [of k] by linarith
  then show ?thesis
    using r by (auto simp: dmul_def fin signed_round_def is_zero_def Let_def)
qed

lemma dadd_above:
  assumes "a = NegZero \<or> (\<exists>y. a = Fin y)" and "b = NegZero \<or> (\<exists>y. b = Fin y)"
    and "pow2 k \<le> value_of a + value_of b" and "- 1022 \<le> k" and "k \<le> 1023"
  shows "dgt (dadd a b) 0"
proof -
  have fin: "a \<noteq> NaN" "b \<noteq> NaN" "\<not> is_infinite a" "\<not> is_infinite b"
    using assms(1,2) by (auto simp: is_infinite_def)
  have nz: "value_of a + value_of b \<noteq> 0" using assms(3) pow2_pos [of k] by linarith
  have "to_double (value_of a + value_of b) = PosInf
        \<or> (\<exists>y. to_double (value_of a + value_of b) = Fin y \<and> pow2 k \<le> y)"
    using assms(3,4,5) by (rule to_double_above)
  moreover have "0 < y" if "pow2 k \<le> y" for y using that pow2_pos [of k] by linarith
  ultimately show ?thesis
    by (auto simp: dadd_def fin nz dgt_def dlt_def zero_double_def)
qed

section \<open>Validator: order of checks and deduplication\<close>




lemma validate_dup_iff:
  "is_duplicate (fst (validate ext request v), fst (snd (validate ext request v)))
     = (TradeRequest.requestId request \<in> seenRequests v)"
  by (auto simp: is_duplicate_def validate_def makeError_def Let_def split: option.splits)

lemma validate_seen:
  "seenRequests (snd (snd (validate ext request v)))
     = insert (TradeRequest.requestId request) (seenRequests v)"
  by (auto simp: validate_def Let_def split: option.splits)

lemma validate_dup_no_calls:
  "is_duplicate (fst (validate ext request v), tr) \<Longrightarrow> fst (snd (validate ext request v)) = []"
  by (auto simp: is_duplicate_def validate_def makeError_def Let_def split: option.splits if_splits)


lemma validate_all_Cons:
  "validate_all ((ext, request) # cs) v =
     ((fst (validate ext request v), fst (snd (validate ext request v)))
        # fst (validate_all cs (snd (snd (validate ext request v)))),
      snd (validate_all cs (snd (snd (validate ext request v)))))"
  by (simp split: prod.splits)

lemma length_validate_all: "length (fst (validate_all cs v)) = length cs"
  by (induction cs arbitrary: v) (auto simp: validate_all_Cons simp del: validate_all.simps(2))

lemma non_duplicate_count_run:
  "non_duplicate_count x cs (fst (validate_all cs v)) =
     (if x \<in> seenRequests v then 0 else if 0 < calls_with x cs then 1 else 0)"
proof (induction cs arbitrary: v)
  case Nil
  then show ?case by (simp add: non_duplicate_count_def calls_with_def)
next
  case (Cons c cs)
  obtain ext request where c: "c = (ext, request)" by (cases c)
  let ?v' = "snd (snd (validate ext request v))"
  have step: "non_duplicate_count x (c # cs) (fst (validate_all (c # cs) v)) =
      (if TradeRequest.requestId request = x \<and> TradeRequest.requestId request \<notin> seenRequests v
       then 1 else 0) + non_duplicate_count x cs (fst (validate_all cs ?v'))"
    unfolding c validate_all_Cons
    by (auto simp: non_duplicate_count_def validate_dup_iff)
  show ?case
    unfolding step Cons.IH validate_seen
    by (auto simp: calls_with_def c)
qed

lemma filter_conj_split:
  "length (filter (\<lambda>(c, out). P c \<and> Q out) zs) + length (filter (\<lambda>(c, out). P c \<and> \<not> Q out) zs)
     = length (filter (\<lambda>(c, out). P c) zs)"
  by (induction zs) auto

lemma filter_zip_fst:
  "length cs = length outs \<Longrightarrow>
     length (filter (\<lambda>(c, out). P c) (zip cs outs)) = length (filter P cs)"
  by (induction cs outs rule: list_induct2) auto

lemma duplicate_count_run:
  "duplicate_count x cs (fst (validate_all cs v)) + non_duplicate_count x cs (fst (validate_all cs v))
     = calls_with x cs"
  unfolding duplicate_count_def non_duplicate_count_def calls_with_def
  by (simp add: filter_conj_split filter_zip_fst length_validate_all)

lemma validate_all_dup_no_calls:
  "out \<in> set (fst (validate_all cs v)) \<Longrightarrow> is_duplicate out \<Longrightarrow> snd out = []"
proof (induction cs arbitrary: v)
  case Nil
  then show ?case by simp
next
  case (Cons c cs)
  obtain ext request where c: "c = (ext, request)" by (cases c)
  from Cons.prems show ?case
    unfolding c validate_all_Cons
    by (auto dest: validate_dup_no_calls Cons.IH)
qed

lemma seen_validate_all:
  "seenRequests (snd (validate_all cs v))
     = seenRequests v \<union> (\<lambda>c. TradeRequest.requestId (snd c)) ` set cs"
proof (induction cs arbitrary: v)
  case Nil
  then show ?case by simp
next
  case (Cons c cs)
  obtain ext request where c: "c = (ext, request)" by (cases c)
  show ?case
    unfolding c validate_all_Cons by (simp add: Cons.IH validate_seen)
qed




lemma processRequest_duplicate:
  assumes "is_duplicate (fst (validate ext request v), fst (snd (validate ext request v)))"
  shows "\<exists>e. processRequest config ext api uninit request v = Some (e, [], v) \<and> status e = DUPLICATE"
proof -
  have "TradeRequest.requestId request \<in> seenRequests v"
    using assms by (simp add: validate_dup_iff)
  then show ?thesis
    by (simp add: processRequest_def validate_def makeError_def)
qed

text \<open>
  C4. In any sequence of \<^verbatim>\<open>validate\<close> calls on a fresh validator, among the calls that
  carry one request ID exactly one is answered with something other than \<open>DUPLICATE\<close>
  and every other one with \<open>DUPLICATE\<close>; so of two calls with equal request IDs, in
  either order, one is not a duplicate and the other is. A call answered \<open>DUPLICATE\<close>
  makes no call on the broker interface (its trace is empty), and \<^verbatim>\<open>processRequest\<close> then
  returns that answer without reaching \<^verbatim>\<open>executeTrade\<close>. The calls are taken one after the
  other: the lookup and the insertion share one critical section in the source.
\<close>

theorem validate_one_non_duplicate:
  "(0 < calls_with x cs \<longrightarrow>
      non_duplicate_count x cs (fst (validate_all cs Validator_init)) = 1
      \<and> duplicate_count x cs (fst (validate_all cs Validator_init)) = calls_with x cs - 1)
   \<and> (\<forall>out \<in> set (fst (validate_all cs Validator_init)). is_duplicate out \<longrightarrow> snd out = [])
   \<and> (\<forall>ext request v config api uninit.
         is_duplicate (fst (validate ext request v), fst (snd (validate ext request v))) \<longrightarrow>
         (\<exists>e. processRequest config ext api uninit request v = Some (e, [], v)
              \<and> status e = DUPLICATE))"
  using duplicate_count_run [of x cs Validator_init]
  by (auto simp: non_duplicate_count_run Validator_init_def
        dest: validate_all_dup_no_calls processRequest_duplicate)

theorem validate_one_non_duplicate_witness:
  "0 < calls_with ''C1-000000''
         [(example_externals, zero_volume_request), (example_externals, example_request)]
   \<and> non_duplicate_count ''C1-000000''
         [(example_externals, zero_volume_request), (example_externals, example_request)]
         (fst (validate_all
            [(example_externals, zero_volume_request), (example_externals, example_request)]
            Validator_init)) = 1
   \<and> duplicate_count ''C1-000000''
         [(example_externals, zero_volume_request), (example_externals, example_request)]
         (fst (validate_all
            [(example_externals, zero_volume_request), (example_externals, example_request)]
            Validator_init)) = 1"
proof -
  have h: "0 < calls_with ''C1-000000''
         [(example_externals, zero_volume_request), (example_externals, example_request)]"
    by (simp add: calls_with_def zero_volume_request_def example_request_def)
  have n: "calls_with ''C1-000000''
         [(example_externals, zero_volume_request), (example_externals, example_request)] = 2"
    by (simp add: calls_with_def zero_volume_request_def example_request_def)
  show ?thesis
    using h n validate_one_non_duplicate [of "''C1-000000''"
        "[(example_externals, zero_volume_request), (example_externals, example_request)]"]
    by simp
qed

text \<open>
  C10. Once \<^verbatim>\<open>validate\<close> has been called with a request ID, every later call with that
  ID is answered \<open>DUPLICATE\<close> (and makes no broker call), whatever the first call
  returned and whatever calls came in between; the set of seen request IDs contains the
  ID after the first call and only grows.
\<close>

theorem validate_consumes_requestId:
  assumes "TradeRequest.requestId r2 = TradeRequest.requestId r1"
  shows "(case validate e1 r1 v of (o1, t1, v1) \<Rightarrow>
            case validate_all cs v1 of (outs, v2) \<Rightarrow>
              case validate e2 r2 v2 of (o2, t2, v3) \<Rightarrow>
                is_duplicate (o2, t2) \<and> t2 = []
                \<and> TradeRequest.requestId r1 \<in> seenRequests v1
                \<and> seenRequests v \<subseteq> seenRequests v1
                \<and> seenRequests v1 \<subseteq> seenRequests v2
                \<and> seenRequests v2 \<subseteq> seenRequests v3)"
proof -
  obtain o1 t1 v1 where s1: "validate e1 r1 v = (o1, t1, v1)" by (cases "validate e1 r1 v")
  obtain outs v2 where s2: "validate_all cs v1 = (outs, v2)" by (cases "validate_all cs v1")
  obtain o2 t2 v3 where s3: "validate e2 r2 v2 = (o2, t2, v3)" by (cases "validate e2 r2 v2")
  have v1: "seenRequests v1 = insert (TradeRequest.requestId r1) (seenRequests v)"
    using validate_seen [of e1 r1 v] by (simp add: s1)
  have v2: "seenRequests v2 = seenRequests v1 \<union> (\<lambda>c. TradeRequest.requestId (snd c)) ` set cs"
    using seen_validate_all [of cs v1] by (simp add: s2)
  have v3: "seenRequests v3 = insert (TradeRequest.requestId r2) (seenRequests v2)"
    using validate_seen [of e2 r2 v2] by (simp add: s3)
  have "TradeRequest.requestId r2 \<in> seenRequests v2"
    by (simp add: v2 v1 assms)
  then have dup: "is_duplicate (o2, t2)"
    using validate_dup_iff [of e2 r2 v2] by (simp add: s3)
  then have "t2 = []"
    using validate_dup_no_calls [of e2 r2 v2 t2] by (simp add: s3)
  with dup show ?thesis
    by (auto simp: s1 s2 s3 v1 v2 v3)
qed


theorem validate_consumes_requestId_witness:
  "TradeRequest.requestId example_request = TradeRequest.requestId zero_volume_request
   \<and> map_option status (fst (validate example_externals zero_volume_request Validator_init))
       = Some INVALID_PARAMS
   \<and> (case validate example_externals zero_volume_request Validator_init of
         (o1, t1, v1) \<Rightarrow>
           case validate example_externals example_request v1 of
             (o2, t2, v3) \<Rightarrow> is_duplicate (o2, t2) \<and> t2 = [])"
proof -
  have h: "TradeRequest.requestId example_request = TradeRequest.requestId zero_volume_request"
    by (simp add: zero_volume_request_def)
  have "map_option status (fst (validate example_externals zero_volume_request Validator_init))
       = Some INVALID_PARAMS"
    by (simp add: validate_def makeError_def zero_volume_request_def example_request_def
          Validator_init_def zero_double_def)
  then show ?thesis
    using h validate_consumes_requestId [where ?e1.0 = example_externals and v = Validator_init
        and cs = "[]" and ?e2.0 = example_externals, OF h]
    by (simp split: prod.splits)
qed

section \<open>Retry executor: backoff and exhaustion\<close>

lemma sint_of_nat32: "j < 2 ^ 31 \<Longrightarrow> sint (of_nat j :: 32 word) = int j"
proof -
  assume j: "j < 2 ^ 31"
  have "sint (of_nat j :: 32 word) = sint (word_of_int (int j) :: 32 word)"
    by simp
  also have "\<dots> = signed_take_bit 31 (int j)"
    by (simp only: sint_sbintrunc') simp
  also have "\<dots> = int j"
    using j by (intro signed_take_bit_int_eq_self) auto
  finally show ?thesis .
qed

lemma unat_of_nat32: "j < 2 ^ 32 \<Longrightarrow> unat (of_nat j :: 32 word) = j"
  by (simp add: unat_of_nat)

lemma sint_pow2_32: "n < 31 \<Longrightarrow> sint (2 ^ n :: 32 word) = 2 ^ n"
proof -
  assume n: "n < 31"
  have "(2::int) ^ n < 2 ^ 31" using n by (intro power_strict_increasing) auto
  have "sint (2 ^ n :: 32 word) = sint (word_of_int (2 ^ n) :: 32 word)"
    by simp
  also have "\<dots> = signed_take_bit 31 (2 ^ n)"
    by (simp only: sint_sbintrunc') simp
  also have "\<dots> = 2 ^ n"
  proof (rule signed_take_bit_int_eq_self)
    show "- (2 ^ 31) \<le> (2::int) ^ n" by (rule order_trans [of _ 0]) simp_all
    show "(2::int) ^ n < 2 ^ 31" by fact
  qed
  finally show ?thesis .
qed

lemma delay_fits_sint:
  "delay_fits base n \<Longrightarrow> sint (base * push_bit n (1 :: 32 word)) = sint base * 2 ^ n"
  by (simp add: delay_fits_def sint_word_mult sint_pow2_32 signed_take_bit_int_eq_self)

lemma sint_nonneg_unat: "0 \<le>s (M :: 32 word) \<Longrightarrow> sint M = int (unat M)"
proof -
  assume "0 \<le>s M"
  then have "0 \<le> sint M" by (simp add: word_sle_eq)
  moreover have "sint M < 2 ^ 32" using sint_lt [of M] by simp
  ultimately have "take_bit 32 (sint M) = sint M" by (simp add: take_bit_int_eq_self)
  then have "uint M = sint M" using uint_sint [of M] by simp
  then show ?thesis by simp
qed

lemma isRetryable_retryCount [simp]: "isRetryable (r\<lparr>retryCount := a\<rparr>) = isRetryable r"
  by (simp add: isRetryable_def)

lemma isSuccess_retryCount [simp]: "isSuccess (r\<lparr>retryCount := a\<rparr>) = isSuccess r"
  by (simp add: isSuccess_def)

lemma retryable_not_success: "isRetryable r \<Longrightarrow> \<not> isSuccess r"
  by (auto simp: isRetryable_def isSuccess_def)

lemma retry_loop_exit:
  "\<not> attempt \<le>s maxRetries config \<Longrightarrow>
     retry_loop config api request attempt n result trace =
       Some (result\<lparr>status := RETRY_EXHAUSTED,
               errorMessage := ''All '' @ to_string_int (sint (maxRetries config + 1))
                               @ '' attempts failed. Last error: '' @ errorMessage result,
               retryCount := maxRetries config\<rparr>, trace)"
  by (subst retry_loop.simps) simp

lemma retry_loop_final:
  "attempt \<le>s maxRetries config \<Longrightarrow> \<not> isRetryable (api n request) \<Longrightarrow>
     retry_loop config api request attempt n result trace =
       Some ((api n request)\<lparr>retryCount := attempt\<rparr>,
             (if 0 <s attempt then trace @ [SleepFor (sint (delayMs config attempt))] else trace)
             @ [ExecuteTrade request])"
  by (subst retry_loop.simps) (simp add: Let_def)

lemma retry_loop_retry:
  "attempt \<le>s maxRetries config \<Longrightarrow> isRetryable (api n request) \<Longrightarrow>
     retry_loop config api request attempt n result trace =
       retry_loop config api request (attempt + 1) (Suc n) ((api n request)\<lparr>retryCount := attempt\<rparr>)
         ((if 0 <s attempt then trace @ [SleepFor (sint (delayMs config attempt))] else trace)
          @ [ExecuteTrade request])"
  by (subst retry_loop.simps) (simp add: Let_def retryable_not_success)

lemma attempt_word:
  assumes "0 \<le>s maxRetries config" "maxRetries config \<noteq> 2 ^ 31 - 1" "j \<le> Suc (unat (maxRetries config))"
  shows "sint (of_nat j :: 32 word) = int j"
    and "(of_nat j \<le>s maxRetries config) = (j \<le> unat (maxRetries config))"
    and "(0 <s (of_nat j :: 32 word)) = (0 < j)"
proof -
  have M: "sint (maxRetries config) = int (unat (maxRetries config))"
    using assms(1) by (rule sint_nonneg_unat)
  have "sint (maxRetries config) \<noteq> 2 ^ 31 - 1"
  proof
    assume "sint (maxRetries config) = 2 ^ 31 - 1"
    then have "sint (maxRetries config) = sint (2 ^ 31 - 1 :: 32 word)" by simp
    then have "maxRetries config = 2 ^ 31 - 1" by (simp only: word_eq_iff_signed [where ?'a = int, symmetric])
    then show False using assms(2) by simp
  qed
  moreover have "sint (maxRetries config) < 2 ^ 31"
    using sint_lt [of "maxRetries config"] by simp
  ultimately have "sint (maxRetries config) \<noteq> 2147483647 \<and> sint (maxRetries config) < 2147483648"
    by simp
  then have "int (unat (maxRetries config)) < 2147483647" using M by linarith
  then have "unat (maxRetries config) < 2147483647" by linarith
  then have j: "j < 2 ^ 31" using assms(3) by simp
  show 1: "sint (of_nat j :: 32 word) = int j" using j by (rule sint_of_nat32)
  show "(of_nat j \<le>s maxRetries config) = (j \<le> unat (maxRetries config))"
    by (simp only: word_sle_eq 1 M of_nat_le_iff)
  show "(0 <s (of_nat j :: 32 word)) = (0 < j)"
    by (simp add: word_sless_alt 1)
qed


lemma retry_loop_steps:
  assumes cfg: "0 \<le>s maxRetries config" "maxRetries config \<noteq> 2 ^ 31 - 1"
  shows "j \<le> k \<Longrightarrow> k \<le> Suc (unat (maxRetries config)) \<Longrightarrow>
         (\<forall>n. j \<le> n \<and> n < k \<longrightarrow> isRetryable (api n request)) \<Longrightarrow>
     retry_loop config api request (of_nat j) j result trace =
     retry_loop config api request (of_nat k) k
       (if j < k then (api (k - 1) request)\<lparr>retryCount := of_nat (k - 1)\<rparr> else result)
       (trace @ concat (map (attempt_events config request) [j..<k]))"
proof (induction k)
  case 0
  then show ?case by simp
next
  case (Suc k)
  show ?case
  proof (cases "j = Suc k")
    case True
    then show ?thesis by simp
  next
    case False
    with Suc.prems have jk: "j \<le> k" and kM: "k \<le> unat (maxRetries config)"
      and retr: "isRetryable (api k request)" by auto
    have kS: "k \<le> Suc (unat (maxRetries config))" using kM by simp
    have le: "of_nat k \<le>s maxRetries config"
      using attempt_word(2) [OF cfg kS] kM by simp
    have pos: "(0 <s (of_nat k :: 32 word)) = (0 < k)"
      by (rule attempt_word(3) [OF cfg kS])
    have "retry_loop config api request (of_nat j) j result trace =
          retry_loop config api request (of_nat k) k
            (if j < k then (api (k - 1) request)\<lparr>retryCount := of_nat (k - 1)\<rparr> else result)
            (trace @ concat (map (attempt_events config request) [j..<k]))"
      using Suc.IH [OF jk kS] Suc.prems(3) by simp
    also have "\<dots> = retry_loop config api request (of_nat (Suc k)) (Suc k)
            ((api k request)\<lparr>retryCount := of_nat k\<rparr>)
            (trace @ concat (map (attempt_events config request) [j..<Suc k]))"
      using jk
      by (subst retry_loop_retry [of "of_nat k" config api k request, OF le retr])
         (simp add: pos attempt_events_def add.commute)
    finally show ?thesis using jk by simp
  qed
qed

lemma attempt_events_trace:
  "concat (map (attempt_events config request) [0..<Suc k]) =
     ExecuteTrade request
     # concat (map (\<lambda>n. [SleepFor (sint (delayMs config (of_nat (Suc n)))), ExecuteTrade request])
                 [0..<k])"
proof -
  have "[0..<Suc k] = 0 # map Suc [0..<k]"
    by (simp add: upt_conv_Cons map_Suc_upt del: upt_Suc)
  then show ?thesis
    by (simp add: attempt_events_def comp_def del: upt_Suc of_nat_Suc)
qed

lemma delayMs_fits:
  assumes "delay_fits (retryBaseMs config) n"
  shows "sint (delayMs config (of_nat (Suc n))) = sint (retryBaseMs config) * 2 ^ n"
proof -
  have "n < 2 ^ 32" using assms by (simp add: delay_fits_def)
  then have "unat (of_nat n :: 32 word) = n" by (rule unat_of_nat32)
  then show ?thesis
    using delay_fits_sint [OF assms] by (simp add: delayMs_def)
qed

lemma backoff_trace_fits:
  assumes "\<forall>n<k. delay_fits (retryBaseMs config) n"
  shows "concat (map (attempt_events config request) [0..<Suc k]) =
           backoff_trace request (sint (retryBaseMs config)) k"
  unfolding attempt_events_trace backoff_trace_def
  using assms by (auto simp: delayMs_fits simp del: of_nat_Suc intro!: arg_cong [where f = concat] map_cong)

lemma count_backoff_trace: "length (filter is_ExecuteTrade (backoff_trace request base k)) = Suc k"
  by (induction k) (simp_all add: backoff_trace_def is_ExecuteTrade_def)


lemma count_attempt_events:
  "length (filter is_ExecuteTrade (concat (map (attempt_events config request) [j..<k]))) = k - j"
  by (induction k) (auto simp: attempt_events_def is_ExecuteTrade_def Suc_diff_le)

text \<open>
  C1. When each of the \<open>maxRetries + 1\<close> broker attempts returns a retryable status
  (\<open>CONNECTION_ERROR\<close> or \<open>REJECTED\<close>), \<^verbatim>\<open>executeWithRetry\<close> returns the last attempt's
  result with status \<open>RETRY_EXHAUSTED\<close>, \<open>retryCount = maxRetries\<close> and the error message
  \<open>All N attempts failed. Last error: \<close> followed by the last attempt's own message, where
  \<open>N = maxRetries + 1\<close> is the number of broker calls made. The configuration is one
  whose \<open>maxRetries\<close> is non-negative, as the specification requires, and for which
  \<open>maxRetries + 1\<close> is still an \<^verbatim>\<open>int\<close> (the loop counter and the message's
  \<^verbatim>\<open>maxRetries + 1\<close> do not overflow).
\<close>

theorem executeWithRetry_exhausted:
  assumes "0 \<le>s maxRetries config" and "maxRetries config \<noteq> 2 ^ 31 - 1"
    and "\<forall>n \<le> unat (maxRetries config).
           status (api n request) = CONNECTION_ERROR \<or> status (api n request) = REJECTED"
  shows "\<exists>trace.
           executeWithRetry config api request uninit =
             Some ((api (unat (maxRetries config)) request)
                     \<lparr>status := RETRY_EXHAUSTED,
                      errorMessage :=
                        ''All '' @ to_string_int (sint (maxRetries config) + 1)
                        @ '' attempts failed. Last error: ''
                        @ errorMessage (api (unat (maxRetries config)) request),
                      retryCount := maxRetries config\<rparr>, trace)
           \<and> length (filter is_ExecuteTrade trace) = unat (maxRetries config) + 1"
proof -
  let ?m = "unat (maxRetries config)"
  let ?trace = "concat (map (attempt_events config request) [0..<Suc ?m])"
  have retr: "\<forall>n. 0 \<le> n \<and> n < Suc ?m \<longrightarrow> isRetryable (api n request)"
    using assms(3) by (simp add: isRetryable_def less_Suc_eq_le)
  have run: "retry_loop config api request 0 0 uninit [] =
             retry_loop config api request (of_nat (Suc ?m)) (Suc ?m)
               ((api ?m request)\<lparr>retryCount := of_nat ?m\<rparr>) ?trace"
    using retry_loop_steps [where config = config and api = api and request = request
        and j = 0 and k = "Suc ?m" and result = uninit and trace = "[]", OF assms(1,2) _ _ retr]
    by simp
  have stop: "\<not> (of_nat (Suc ?m) \<le>s maxRetries config)"
    using attempt_word(2) [OF assms(1,2), of "Suc ?m"] by simp
  have "sint (of_nat (Suc ?m) :: 32 word) = int (Suc ?m)"
    using attempt_word(1) [OF assms(1,2), of "Suc ?m"] by simp
  then have plus1: "sint (maxRetries config + 1) = sint (maxRetries config) + 1"
    using sint_nonneg_unat [OF assms(1)] by (simp add: add.commute)
  have "executeWithRetry config api request uninit =
          Some ((api ?m request)
                  \<lparr>status := RETRY_EXHAUSTED,
                   errorMessage :=
                     ''All '' @ to_string_int (sint (maxRetries config) + 1)
                     @ '' attempts failed. Last error: '' @ errorMessage (api ?m request),
                   retryCount := maxRetries config\<rparr>, ?trace)"
    unfolding executeWithRetry_def run retry_loop_exit [OF stop] plus1 by simp
  moreover have "length (filter is_ExecuteTrade ?trace) = ?m + 1"
    using count_attempt_events [of config request 0 "Suc ?m"] by simp
  ultimately show ?thesis by blast
qed

theorem executeWithRetry_exhausted_witness:
  "0 \<le>s maxRetries example_config \<and> maxRetries example_config \<noteq> 2 ^ 31 - 1
   \<and> status (always_failing 0 example_request) = CONNECTION_ERROR
   \<and> (\<exists>trace.
         executeWithRetry example_config always_failing example_request
             (broker_result example_request SUCCESS [] 0 [])
           = Some ((broker_result example_request RETRY_EXHAUSTED [] 0
                      ''All 4 attempts failed. Last error: timeout'')\<lparr>retryCount := 3\<rparr>, trace)
         \<and> length (filter is_ExecuteTrade trace) = 4)"
proof -
  have h1: "0 \<le>s maxRetries example_config" by (simp add: example_config_def word_sle_eq)
  have h2: "maxRetries example_config \<noteq> 2 ^ 31 - 1" by (simp add: example_config_def)
  have h3: "\<forall>n \<le> unat (maxRetries example_config).
         status (always_failing n example_request) = CONNECTION_ERROR
         \<or> status (always_failing n example_request) = REJECTED"
    by (simp add: always_failing_def broker_result_def)
  show ?thesis
    using h1 h2 h3
      executeWithRetry_exhausted [where config = example_config and api = always_failing and request = example_request
          and uninit = "broker_result example_request SUCCESS [] 0 []", OF h1 h2 h3]
    by (simp add: example_config_def always_failing_def broker_result_def to_string_int_def
          digits_of.simps)
qed

lemma last_attempt_exists:
  fixes api :: "nat \<Rightarrow> TradeRequest \<Rightarrow> TradeResult"
  shows "\<exists>k\<le>m. (\<forall>n<k. isRetryable (api n request)) \<and> (k = m \<or> \<not> isRetryable (api k request))"
proof (cases "\<exists>n\<le>m. \<not> isRetryable (api n request)")
  case True
  then obtain n where n: "n \<le> m" "\<not> isRetryable (api n request)" by blast
  let ?k = "LEAST j. \<not> isRetryable (api j request)"
  have 1: "\<not> isRetryable (api ?k request)"
    using LeastI [of "\<lambda>j. \<not> isRetryable (api j request)" n] n(2) by simp
  have 2: "?k \<le> m"
    using Least_le [of "\<lambda>j. \<not> isRetryable (api j request)" n] n by simp
  have 3: "\<forall>j<?k. isRetryable (api j request)"
    using not_less_Least [of _ "\<lambda>j. \<not> isRetryable (api j request)"] by blast
  from 1 2 3 show ?thesis by blast
next
  case False
  then have "\<forall>n<m. isRetryable (api n request)" by auto
  moreover from False have "isRetryable (api m request)" by auto
  ultimately show ?thesis by blast
qed

text \<open>
  C2. Let \<open>k\<close> be the index of the last attempt: the first attempt whose result is not
  retryable, or \<open>maxRetries\<close> if all are retryable. Then \<^verbatim>\<open>executeWithRetry\<close> makes
  \<open>k + 1 \<le> maxRetries + 1\<close> broker calls; the first is made at once and before attempt
  \<open>n + 1\<close> it sleeps \<open>retryBaseMs \<times> 2^n\<close> milliseconds (the trace is \<open>backoff_trace\<close>); a
  result is retryable iff its status is \<open>CONNECTION_ERROR\<close> or \<open>REJECTED\<close>; and when
  attempt \<open>k\<close> is a success or another non-retryable result, that broker result is
  returned with \<open>retryCount = k\<close> and nothing happens after the call. Such a \<open>k\<close>
  exists for every broker. The run is one in which the source's \<^verbatim>\<open>int\<close> arithmetic has
  defined behaviour: \<open>0 \<le> maxRetries < INT_MAX\<close>, and each delay computed fits an
  \<^verbatim>\<open>int\<close> (\<open>delay_fits\<close>).
\<close>

theorem executeWithRetry_backoff:
  assumes "0 \<le>s maxRetries config" and "maxRetries config \<noteq> 2 ^ 31 - 1"
    and "k \<le> unat (maxRetries config)"
    and "\<forall>n<k. isRetryable (api n request)"
    and "k = unat (maxRetries config) \<or> \<not> isRetryable (api k request)"
    and "\<forall>n<k. delay_fits (retryBaseMs config) n"
  shows "(\<exists>result.
            executeWithRetry config api request uninit =
              Some (result, backoff_trace request (sint (retryBaseMs config)) k)
            \<and> (\<not> isRetryable (api k request) \<longrightarrow>
                  result = (api k request)\<lparr>retryCount := of_nat k\<rparr> \<and> sint (retryCount result) = int k))
         \<and> length (filter is_ExecuteTrade (backoff_trace request (sint (retryBaseMs config)) k))
             = k + 1
         \<and> int k + 1 \<le> sint (maxRetries config) + 1
         \<and> (\<forall>r. isRetryable r = (status r = CONNECTION_ERROR \<or> status r = REJECTED))"
proof -
  let ?m = "unat (maxRetries config)"
  let ?bt = "backoff_trace request (sint (retryBaseMs config)) k"
  have kS: "k \<le> Suc ?m" using assms(3) by simp
  have retr: "\<forall>n. 0 \<le> n \<and> n < k \<longrightarrow> isRetryable (api n request)"
    using assms(4) by simp
  have le: "of_nat k \<le>s maxRetries config"
    using attempt_word(2) [OF assms(1,2) kS] assms(3) by simp
  have pos: "(0 <s (of_nat k :: 32 word)) = (0 < k)"
    by (rule attempt_word(3) [OF assms(1,2) kS])
  have sk: "sint (of_nat k :: 32 word) = int k"
    by (rule attempt_word(1) [OF assms(1,2) kS])
  have tr: "concat (map (attempt_events config request) [0..<Suc k]) = ?bt"
    using assms(6) by (rule backoff_trace_fits)
  have to_k: "executeWithRetry config api request uninit =
             retry_loop config api request (of_nat k) k
               (if 0 < k then (api (k - 1) request)\<lparr>retryCount := of_nat (k - 1)\<rparr> else uninit)
               (concat (map (attempt_events config request) [0..<k]))"
    unfolding executeWithRetry_def
    using retry_loop_steps [where config = config and api = api and request = request
        and j = 0 and k = k and result = uninit and trace = "[]", OF assms(1,2) _ kS retr]
    by simp
  have ev: "(if 0 <s (of_nat k :: 32 word)
              then tr0 @ [SleepFor (sint (delayMs config (of_nat k)))] else tr0)
            @ [ExecuteTrade request] = tr0 @ attempt_events config request k" for tr0
    by (simp add: pos attempt_events_def)
  have run: "\<exists>result. executeWithRetry config api request uninit = Some (result, ?bt)
            \<and> (\<not> isRetryable (api k request) \<longrightarrow>
                  result = (api k request)\<lparr>retryCount := of_nat k\<rparr> \<and> sint (retryCount result) = int k)"
  proof (cases "isRetryable (api k request)")
    case False
    have "executeWithRetry config api request uninit =
            Some ((api k request)\<lparr>retryCount := of_nat k\<rparr>,
                  concat (map (attempt_events config request) [0..<Suc k]))"
      unfolding to_k
      by (subst retry_loop_final [of "of_nat k" config api k request, OF le False])
         (simp add: ev)
    then show ?thesis using False sk tr by simp
  next
    case True
    with assms(5) have km: "k = ?m" by simp
    have stop: "\<not> (of_nat (Suc k) \<le>s maxRetries config)"
      using attempt_word(2) [OF assms(1,2), of "Suc k"] km by simp
    have "executeWithRetry config api request uninit =
            retry_loop config api request (of_nat (Suc k)) (Suc k)
              ((api k request)\<lparr>retryCount := of_nat k\<rparr>)
              (concat (map (attempt_events config request) [0..<Suc k]))"
      unfolding to_k
      by (subst retry_loop_retry [of "of_nat k" config api k request, OF le True])
         (simp add: ev add.commute)
    then have "\<exists>result. executeWithRetry config api request uninit =
            Some (result, concat (map (attempt_events config request) [0..<Suc k]))"
      by (simp only: retry_loop_exit [OF stop]) blast
    then show ?thesis using True tr by simp
  qed
  have "int k + 1 \<le> sint (maxRetries config) + 1"
    using assms(3) sint_nonneg_unat [OF assms(1)] by linarith
  then show ?thesis
    using run by (simp add: count_backoff_trace isRetryable_def)
qed

theorem executeWithRetry_backoff_witness:
  "0 \<le>s maxRetries example_config \<and> maxRetries example_config \<noteq> 2 ^ 31 - 1
   \<and> 2 \<le> unat (maxRetries example_config)
   \<and> isRetryable (failing_twice 0 example_request)
   \<and> isRetryable (failing_twice 1 example_request)
   \<and> \<not> isRetryable (failing_twice 2 example_request)
   \<and> delay_fits (retryBaseMs example_config) 0
   \<and> delay_fits (retryBaseMs example_config) 1
   \<and> executeWithRetry example_config failing_twice example_request
         (broker_result example_request SUCCESS [] 0 [])
       = Some ((broker_result example_request SUCCESS ''100000'' (108465 / 100000) [])
                 \<lparr>retryCount := 2\<rparr>,
               [ExecuteTrade example_request, SleepFor 10, ExecuteTrade example_request,
                SleepFor 20, ExecuteTrade example_request])"
proof -
  have h1: "0 \<le>s maxRetries example_config" by (simp add: example_config_def word_sle_eq)
  have h2: "maxRetries example_config \<noteq> 2 ^ 31 - 1" by (simp add: example_config_def)
  have h3: "2 \<le> unat (maxRetries example_config)" by (simp add: example_config_def)
  have h4: "\<forall>n<2. isRetryable (failing_twice n example_request)"
    by (simp add: failing_twice_def broker_result_def isRetryable_def)
  have h5: "2 = unat (maxRetries example_config) \<or> \<not> isRetryable (failing_twice 2 example_request)"
    by (simp add: failing_twice_def broker_result_def isRetryable_def)
  have h6: "\<forall>n<2. delay_fits (retryBaseMs example_config) n"
    by (auto simp: example_config_def delay_fits_def less_2_cases_iff)
  have tr: "backoff_trace example_request 10 2 =
      [ExecuteTrade example_request, SleepFor 10, ExecuteTrade example_request,
                SleepFor 20, ExecuteTrade example_request]"
    by (simp add: backoff_trace_def numeral_2_eq_2)
  show ?thesis
    using h1 h2 h3 h4 h5 h6
      executeWithRetry_backoff [where config = example_config and api = failing_twice and request = example_request
          and k = 2 and uninit = "broker_result example_request SUCCESS [] 0 []",
          OF h1 h2 h3 h4 h5 h6]
    by (auto simp: tr example_config_def failing_twice_def broker_result_def isRetryable_def)
qed

section \<open>Work queue: push after shutdown\<close>

lemma pop_n_drain:
  "pop_n (length xs) \<lparr>queue = xs @ ys, shutdownFlag = True\<rparr>
     = Some (map Some xs, \<lparr>queue = ys, shutdownFlag = True\<rparr>)"
  by (induction xs) (simp_all add: pop_def)

text \<open>
  C6 (as stated). The claim that \<^verbatim>\<open>push\<close> after \<^verbatim>\<open>shutdown\<close> leaves the queue unchanged and
  that the item is never popped fails: on the empty queue, \<^verbatim>\<open>shutdown\<close> then \<^verbatim>\<open>push(1)\<close>
  changes the contents, and the next \<^verbatim>\<open>pop\<close> returns 1.
\<close>

theorem push_after_shutdown_counterexample:
  "queue (push (1::nat) (shutdown ThreadSafeQueue_init)) \<noteq> queue (shutdown ThreadSafeQueue_init)
   \<and> pop (push (1::nat) (shutdown ThreadSafeQueue_init))
       = Some (Some 1, shutdown ThreadSafeQueue_init)"
  by (simp add: push_def shutdown_def pop_def ThreadSafeQueue_init_def)

text \<open>
  C6 (amended). \<^verbatim>\<open>push\<close> does not look at the shutdown flag: after \<^verbatim>\<open>shutdown\<close>,
  \<^verbatim>\<open>push(x)\<close> appends \<open>x\<close> at the back of the queue and leaves the flag set, and \<open>x\<close> is
  returned by \<^verbatim>\<open>pop\<close> once the items queued before it have been popped.
\<close>

theorem push_after_shutdown_enqueues:
  "push x (shutdown q) = \<lparr>queue = queue q @ [x], shutdownFlag = True\<rparr>
   \<and> pop_n (Suc (length (queue q))) (push x (shutdown q))
       = Some (map Some (queue q) @ [Some x], \<lparr>queue = [], shutdownFlag = True\<rparr>)"
proof -
  have p: "push x (shutdown q) = \<lparr>queue = queue q @ [x], shutdownFlag = True\<rparr>"
    by (simp add: push_def shutdown_def)
  have "pop_n (length (queue q @ [x])) \<lparr>queue = (queue q @ [x]) @ [], shutdownFlag = True\<rparr>
          = Some (map Some (queue q @ [x]), \<lparr>queue = [], shutdownFlag = True\<rparr>)"
    by (rule pop_n_drain)
  then show ?thesis unfolding p by simp
qed

theorem push_after_shutdown_enqueues_witness:
  "pop_n 3 (push (3::nat) (shutdown (push 2 (push 1 ThreadSafeQueue_init))))
     = Some ([Some 1, Some 2, Some 3], \<lparr>queue = [], shutdownFlag = True\<rparr>)"
  using push_after_shutdown_enqueues [of "3::nat" "push 2 (push 1 ThreadSafeQueue_init)"]
  by (simp add: push_def shutdown_def ThreadSafeQueue_init_def eval_nat_numeral)

section \<open>Mock broker: the execution price on failure\<close>

text \<open>
  What holds of every result: an error built by the validator has no ticket, price 0 and
  a non-empty message; a result of \<^verbatim>\<open>MockMTAPI::executeTrade\<close> is a success exactly when
  it has a ticket and exactly when its message is empty, and a success has a positive
  price (for the symbol table of the constructor and a slippage draw in \<open>[0, 1)\<close>). On
  every failure path of the mock, however, the price is the uninitialised one.
\<close>

lemma digits_of_nonempty: "digits_of n \<noteq> []"
  by (subst digits_of.simps) simp

lemma validate_error_fields:
  "fst (validate ext request v) = Some e \<Longrightarrow>
     status e \<noteq> SUCCESS \<and> mtTicketId e = [] \<and> executionPrice e = 0 \<and> errorMessage e \<noteq> []
     \<and> retryCount e = 0"
  by (auto simp: validate_def makeError_def Let_def split: option.splits if_splits)

lemma executeTrade_fields:
  "(status (fst (executeTrade d request m)) = SUCCESS)
     = (mtTicketId (fst (executeTrade d request m)) \<noteq> [])
   \<and> (status (fst (executeTrade d request m)) = SUCCESS)
     = (errorMessage (fst (executeTrade d request m)) = [])
   \<and> (status (fst (executeTrade d request m)) = SUCCESS \<or>
      executionPrice (fst (executeTrade d request m)) = uninit_executionPrice d)"
  by (auto simp: executeTrade_def generateTicketId_def digits_of_nonempty Let_def
           split: option.splits)

lemma slippage_factor:
  "to_double (1 / 20000) = Fin (7378697629483821 / 147573952589676412928)"
  by (simp add: to_double_def binary_exponent_numeral round_half_even_def pow2_def Let_def)

lemma table_prices:
  assumes "map_of (symbols (MockMTAPI_init rate)) s = Some info"
  shows "\<exists>b a. bid info = Fin b \<and> ask info = Fin a \<and> 1 / 2 \<le> b \<and> 1 / 2 \<le> a"
proof -
  have lit: "\<exists>y. to_double x = Fin y \<and> 1 / 2 \<le> y" if "1 / 2 \<le> x" "x \<le> 4096" for x
    using to_double_between [of "- 1" x 12] that by (auto simp: pow2_def)
  have "(\<exists>x. bid info = to_double x \<and> 1 / 2 \<le> x \<and> x \<le> 4096)
        \<and> (\<exists>x. ask info = to_double x \<and> 1 / 2 \<le> x \<and> x \<le> 4096)"
    using assms by (auto simp: MockMTAPI_init_def mkSymbol_def split: if_splits)
  then show ?thesis using lit by metis
qed

lemma generatePrice_positive:
  assumes "symbols m = symbols (MockMTAPI_init rate)"
    and "slippageDraw d = Fin u" and "0 \<le> u" and "u < 1"
    and "map_of (symbols m) s = Some info"
  shows "dgt (generatePrice d m s ty) 0"
proof -
  let ?w = "dsub (slippageDraw d) (Fin (1 / 2))"
  let ?slip = "dmul ?w (to_double (1 / 20000))"
  obtain b a where ba: "bid info = Fin b" "ask info = Fin a" "1 / 2 \<le> b" "1 / 2 \<le> a"
    using table_prices [of rate s info] assms(1,5) by auto
  obtain p where base: "(if ty = BUY then ask info else bid info) = Fin p" "1 / 2 \<le> p"
    using ba by (cases "ty = BUY") auto
  have w_eq: "?w = dadd (Fin u) (Fin (- (1 / 2)))"
    by (simp add: assms(2) dsub_def dneg_def)
  have "\<bar>u - 1 / 2\<bar> \<le> 1 / 2" using assms(3,4) by linarith
  then have "\<bar>value_of (Fin u) + value_of (Fin (- (1 / 2)))\<bar> \<le> pow2 (- 1)"
    by (simp add: pow2_def)
  then have w: "(?w = NegZero \<or> (\<exists>y. ?w = Fin y)) \<and> \<bar>value_of ?w\<bar> \<le> pow2 (- 1)"
    unfolding w_eq by (intro dadd_within) auto
  have "\<bar>value_of ?w\<bar> * (7378697629483821 / 147573952589676412928) \<le> pow2 (- 1) * pow2 (- 14)"
    using w by (intro mult_mono) (auto simp: pow2_def)
  then have "\<bar>value_of ?w * value_of (to_double (1 / 20000))\<bar> \<le> pow2 (- 15)"
    by (simp add: slippage_factor abs_mult pow2_def)
  moreover have "to_double (1 / 20000) = NegZero \<or> (\<exists>y. to_double (1 / 20000) = Fin y)"
    unfolding slippage_factor by blast
  moreover have "?w = NegZero \<or> (\<exists>y. ?w = Fin y)" using w by simp
  ultimately have slip:
    "(?slip = NegZero \<or> (\<exists>y. ?slip = Fin y)) \<and> \<bar>value_of ?slip\<bar> \<le> pow2 (- 15)"
    by (intro dmul_within) simp_all
  have "pow2 (- 2) \<le> value_of (Fin p) + value_of ?slip"
    using slip base(2) by (simp add: pow2_def) linarith
  moreover have "?slip = NegZero \<or> (\<exists>y. ?slip = Fin y)" using slip by simp
  ultimately have "dgt (dadd (Fin p) ?slip) 0"
    by (intro dadd_above [where k = "- 2"]) simp_all
  then show ?thesis
    by (simp add: generatePrice_def assms(5) Let_def base(1) del: if_split cong: if_cong)
qed

lemma executeTrade_success_price:
  assumes "symbols m = symbols (MockMTAPI_init rate)"
    and "slippageDraw d = Fin u" and "0 \<le> u" and "u < 1"
    and "status (fst (executeTrade d request m)) = SUCCESS"
  shows "dgt (executionPrice (fst (executeTrade d request m))) 0"
proof (cases "map_of (symbols m) (symbol request)")
  case None
  with assms(5) show ?thesis
    by (auto simp: executeTrade_def Let_def split: if_splits)
next
  case (Some info)
  have "dgt (generatePrice d (m\<lparr>account := acc\<rparr>) (symbol request) (tradeType request)) 0"
    for acc
    using assms(1,2,3,4) Some
    by (intro generatePrice_positive [where rate = rate and u = u and info = info]) simp_all
  with assms(5) show ?thesis
    by (auto simp: executeTrade_def generateTicketId_def Let_def Some split: if_splits)
qed

lemma misaligned_steps:
  "ddiv (Fin (1080863910568919 / 72057594037927936))
        (Fin (5764607523034235 / 576460752303423488)) = Fin (3 / 2)"
  by (simp add: ddiv_def is_infinite_def is_zero_def signed_round_def
        to_double_def binary_exponent_numeral round_half_even_def pow2_def Let_def)

lemma misaligned_distance:
  "dfabs (dsub (Fin (3 / 2)) (dround (Fin (3 / 2)))) = Fin (1 / 2)"
  by (simp add: dround_def cround_def dsub_def dneg_def dadd_def is_infinite_def dfabs_def
        to_double_def binary_exponent_numeral round_half_even_def pow2_def Let_def)

text \<open>
  C5 (the code at the failing input). A request that passes validation but whose volume
  is not a multiple of the lot step goes through \<^verbatim>\<open>processRequest\<close> to the mock broker,
  which refuses it with \<open>INVALID_PARAMS\<close> at the first attempt; the result's
  \<open>executionPrice\<close> is never assigned on that path and is whatever the uninitialised field
  \<open>p\<close> held, not 0.
\<close>

theorem processRequest_failure_price_unset:
  "map_option (\<lambda>(r, tr, v). (status r, executionPrice r, tr))
     (processRequest example_config mock_externals
        (mock_api (\<lambda>n. example_draws p) (MockMTAPI_init 0))
        (broker_result misaligned_request SUCCESS [] 0 []) misaligned_request Validator_init)
   = Some (INVALID_PARAMS, p, [GetSymbolInfo ''EURUSD'', ExecuteTrade misaligned_request])"
proof -
  have v: "validate mock_externals misaligned_request Validator_init
             = (None, [GetSymbolInfo ''EURUSD''], \<lparr>seenRequests = {''C1-000000''}\<rparr>)"
    by (simp add: validate_def mock_externals_def MockMTAPI_getSymbolInfo_def MockMTAPI_init_def
          mkSymbol_def misaligned_request_def example_request_def Validator_init_def Let_def
          to_double_values dgt_def zero_double_def)
  have b: "status (mock_api (\<lambda>n. example_draws p) (MockMTAPI_init 0) 0 misaligned_request)
             = INVALID_PARAMS
           \<and> executionPrice (mock_api (\<lambda>n. example_draws p) (MockMTAPI_init 0) 0 misaligned_request)
             = p"
    by (simp add: mock_api_def executeTrade_def example_draws_def misaligned_request_def
          example_request_def MockMTAPI_init_def shouldFail_def mkSymbol_def Let_def
          misaligned_steps misaligned_distance to_double_values zero_double_def dgt_def)
  have le: "0 \<le>s maxRetries example_config"
    by (simp add: example_config_def word_sle_eq)
  have nr: "\<not> isRetryable (mock_api (\<lambda>n. example_draws p) (MockMTAPI_init 0) 0 misaligned_request)"
    using b by (simp add: isRetryable_def)
  have e: "executeWithRetry example_config (mock_api (\<lambda>n. example_draws p) (MockMTAPI_init 0))
             misaligned_request (broker_result misaligned_request SUCCESS [] 0 [])
           = Some ((mock_api (\<lambda>n. example_draws p) (MockMTAPI_init 0) 0 misaligned_request)
                     \<lparr>retryCount := 0\<rparr>, [ExecuteTrade misaligned_request])"
    unfolding executeWithRetry_def
    by (subst retry_loop_final [where attempt = 0 and config = example_config
          and api = "mock_api (\<lambda>n. example_draws p) (MockMTAPI_init 0)" and n = 0
          and request = misaligned_request, OF le nr]) simp
  show ?thesis
    by (simp add: processRequest_def v e b)
qed

section \<open>Result tracker\<close>

lemma record_all_snoc: "record_all (rs @ [r]) t = record_result r (record_all rs t)"
  by (simp add: record_all_def)

lemma results_record_result:
  "map_of (results (record_result r t)) rid =
     (if rid = requestId r then Some r else map_of (results t) rid)"
  by (simp add: record_result_def update_conv')

lemma clientRequestsOf_record_result:
  "clientRequestsOf (record_result r t) c =
     (if c = clientId r then clientRequestsOf t c @ [requestId r] else clientRequestsOf t c)"
  by (simp add: record_result_def clientRequestsOf_def update_conv')

lemma distinct_record_result:
  "distinct (map fst (results t)) \<Longrightarrow> distinct (map fst (results (record_result r t)))"
  "distinct (map fst (clientRequests t)) \<Longrightarrow> distinct (map fst (clientRequests (record_result r t)))"
  by (simp_all add: record_result_def distinct_update)

lemma record_all_Nil: "record_all [] t = t"
  by (simp add: record_all_def)

lemma results_record_all:
  "map_of (results (record_all rs ResultTracker_init)) rid = latest rs rid"
proof (induction rs rule: rev_induct)
  case Nil
  then show ?case by (simp add: record_all_Nil ResultTracker_init_def latest_def)
next
  case (snoc r rs)
  then show ?case by (simp add: record_all_snoc results_record_result latest_def)
qed

lemma clientRequestsOf_record_all:
  "clientRequestsOf (record_all rs ResultTracker_init) c =
     map requestId (filter (\<lambda>r. clientId r = c) rs)"
proof (induction rs rule: rev_induct)
  case Nil
  then show ?case by (simp add: record_all_Nil ResultTracker_init_def clientRequestsOf_def)
next
  case (snoc r rs)
  then show ?case by (auto simp: record_all_snoc clientRequestsOf_record_result)
qed

lemma distinct_record_all:
  "distinct (map fst (results (record_all rs ResultTracker_init)))
   \<and> distinct (map fst (clientRequests (record_all rs ResultTracker_init)))"
proof (induction rs rule: rev_induct)
  case Nil
  then show ?case by (simp add: record_all_Nil ResultTracker_init_def)
next
  case (snoc r rs)
  then show ?case by (simp add: record_all_snoc distinct_record_result)
qed

lemma latest_Some_iff: "(latest rs rid \<noteq> None) = (rid \<in> requestId ` set rs)"
  by (auto simp: latest_def find_None_iff)

lemma find_SomeD: "find P xs = Some x \<Longrightarrow> x \<in> set xs \<and> P x"
  by (induction xs) (auto split: if_splits)

lemma latest_SomeD: "latest rs rid = Some res \<Longrightarrow> res \<in> set rs \<and> requestId res = rid"
  using find_SomeD [of "\<lambda>r. requestId r = rid" "rev rs" res] by (simp add: latest_def)



lemma getByRequestId_fun: "getByRequestId t = map_of (results t)"
  by (rule ext) (simp add: getByRequestId_def)




lemma latest_total:
  "r \<in> set rs \<Longrightarrow> \<exists>y. latest rs (requestId r) = Some y \<and> requestId y = requestId r"
proof -
  assume "r \<in> set rs"
  then have "latest rs (requestId r) \<noteq> None"
    using latest_Some_iff [of rs "requestId r"] by blast
  then obtain y where "latest rs (requestId r) = Some y" by blast
  then show ?thesis using latest_SomeD by blast
qed




text \<open>
  C7 (as stated). The index invariant does not survive an overwrite under a different
  client: after recording the executed result of client \<open>C1\<close> and then the \<open>DUPLICATE\<close>
  result that the validator produces for a request of client \<open>C2\<close> with the same request
  ID, that ID is still listed for \<open>C1\<close> while the stored result belongs to \<open>C2\<close>.
\<close>

theorem tracker_index_counterexample:
  "''C1-000000'' \<in> set (clientRequestsOf
       (record_all [executed_result, duplicate_from_other_client] ResultTracker_init) ''C1'')
   \<and> map_option clientId
        (getByRequestId
           (record_all [executed_result, duplicate_from_other_client] ResultTracker_init)
           ''C1-000000'') = Some ''C2''
   \<and> \<not> tracker_consistent
          (record_all [executed_result, duplicate_from_other_client] ResultTracker_init)"
  by (simp add: record_all_def record_result_def ResultTracker_init_def clientRequestsOf_def
        getByRequestId_def tracker_consistent_def executed_result_def
        duplicate_from_other_client_def makeError_def broker_result_def example_request_def)

text \<open>
  C7 (amended). After any sequence of \<^verbatim>\<open>record\<close> calls, every request ID listed for a
  client \<open>c\<close> is a key of \<open>results\<close>; the stored result's client is \<open>c\<close> provided that
  results recorded under one request ID all carry the same client ID.
\<close>

theorem tracker_index_same_client:
  "\<forall>c rid. rid \<in> set (clientRequestsOf (record_all rs ResultTracker_init) c) \<longrightarrow>
      (\<exists>res. getByRequestId (record_all rs ResultTracker_init) rid = Some res
             \<and> ((\<forall>r\<in>set rs. \<forall>r'\<in>set rs. requestId r = requestId r' \<longrightarrow> clientId r = clientId r')
                  \<longrightarrow> clientId res = c))"
proof (intro allI impI)
  fix c rid
  let ?t = "record_all rs ResultTracker_init"
  let ?same = "\<forall>r\<in>set rs. \<forall>r'\<in>set rs. requestId r = requestId r' \<longrightarrow> clientId r = clientId r'"
  assume "rid \<in> set (clientRequestsOf ?t c)"
  then have "rid \<in> requestId ` set (filter (\<lambda>r. clientId r = c) rs)"
    by (simp add: clientRequestsOf_record_all)
  then obtain r where r: "r \<in> set rs" "clientId r = c" "requestId r = rid"
    by (auto simp: image_iff)
  obtain res where res: "latest rs rid = Some res" "requestId res = rid"
    using latest_total [OF r(1)] r(3) by auto
  have mem: "res \<in> set rs" using latest_SomeD [OF res(1)] by simp
  have cl: "clientId res = c" if same: ?same
  proof -
    have "requestId res = requestId r" using res(2) r(3) by simp
    moreover have "\<forall>r'\<in>set rs. requestId res = requestId r' \<longrightarrow> clientId res = clientId r'"
      using same mem by (rule bspec)
    ultimately have "clientId res = clientId r" using r(1) by blast
    then show ?thesis using r(2) by simp
  qed
  have g: "getByRequestId ?t rid = Some res"
    using res(1) by (simp add: getByRequestId_def results_record_all)
  have imp: "?same \<longrightarrow> clientId res = c"
  proof (rule impI)
    assume ?same
    then show "clientId res = c" by (rule cl)
  qed
  from g imp have "getByRequestId ?t rid = Some res \<and> (?same \<longrightarrow> clientId res = c)"
    by (rule conjI)
  then show "\<exists>res. getByRequestId ?t rid = Some res \<and> (?same \<longrightarrow> clientId res = c)"
    by (rule exI)
qed

theorem tracker_index_same_client_witness:
  "''C1-000001'' \<in> set (clientRequestsOf
       (record_all [executed_result, rejected_result] ResultTracker_init) ''C1'')
   \<and> (\<exists>res. getByRequestId (record_all [executed_result, rejected_result] ResultTracker_init)
               ''C1-000001'' = Some res \<and> clientId res = ''C1'')"
proof -
  have h: "''C1-000001'' \<in> set (clientRequestsOf
       (record_all [executed_result, rejected_result] ResultTracker_init) ''C1'')"
    by (simp add: clientRequestsOf_record_all executed_result_def rejected_result_def
          makeError_def broker_result_def example_request_def)
  have same: "\<forall>r\<in>set [executed_result, rejected_result].
               \<forall>r'\<in>set [executed_result, rejected_result].
                 requestId r = requestId r' \<longrightarrow> clientId r = clientId r'"
    by (simp add: executed_result_def rejected_result_def makeError_def broker_result_def
          example_request_def)
  show ?thesis
    using h same tracker_index_same_client [of "[executed_result, rejected_result]"]
    by blast
qed

lemma tally_fields:
  "totalRequests (tally s r) = totalRequests s + 1
   \<and> successful (tally s r) = successful s + (if bucket_of (status r) = Successful then 1 else 0)
   \<and> rejected (tally s r) = rejected s + (if bucket_of (status r) = Rejected then 1 else 0)
   \<and> errors (tally s r) = errors s + (if bucket_of (status r) = Errors then 1 else 0)
   \<and> duplicates (tally s r) = duplicates s + (if bucket_of (status r) = Duplicates then 1 else 0)"
  by (cases "status r") (simp_all add: tally_def Let_def)

lemma foldl_tally:
  "totalRequests (foldl (\<lambda>stats (rid, result). tally stats result) s xs)
     = totalRequests s + of_nat (length xs)
   \<and> successful (foldl (\<lambda>stats (rid, result). tally stats result) s xs)
     = successful s + of_nat (length (filter (\<lambda>(rid, r). bucket_of (status r) = Successful) xs))
   \<and> rejected (foldl (\<lambda>stats (rid, result). tally stats result) s xs)
     = rejected s + of_nat (length (filter (\<lambda>(rid, r). bucket_of (status r) = Rejected) xs))
   \<and> errors (foldl (\<lambda>stats (rid, result). tally stats result) s xs)
     = errors s + of_nat (length (filter (\<lambda>(rid, r). bucket_of (status r) = Errors) xs))
   \<and> duplicates (foldl (\<lambda>stats (rid, result). tally stats result) s xs)
     = duplicates s + of_nat (length (filter (\<lambda>(rid, r). bucket_of (status r) = Duplicates) xs))"
proof (induction xs arbitrary: s)
  case Nil
  then show ?case by simp
next
  case (Cons x xs)
  obtain rid r where x: "x = (rid, r)" by (cases x)
  show ?case
    unfolding x by (simp add: Cons.IH tally_fields algebra_simps)
qed

lemma bucket_partition:
  "length (filter (\<lambda>(rid, r). bucket_of (status r) = Successful) xs)
   + length (filter (\<lambda>(rid, r). bucket_of (status r) = Rejected) xs)
   + length (filter (\<lambda>(rid, r). bucket_of (status r) = Errors) xs)
   + length (filter (\<lambda>(rid, r). bucket_of (status r) = Duplicates) xs) = length xs"
proof (induction xs)
  case Nil
  then show ?case by simp
next
  case (Cons x xs)
  obtain rid r where x: "x = (rid, r)" by (cases x)
  show ?case
    using Cons.IH unfolding x by (cases "bucket_of (status r)") simp_all
qed

text \<open>
  C8. \<^verbatim>\<open>getStats\<close> counts every stored result in exactly one bucket, the one the
  aggregation table gives for its status; \<open>totalRequests\<close> is the sum of the four buckets
  and the number of stored results, which is the number of distinct request IDs
  recorded. The counters are C++ \<^verbatim>\<open>int\<close>s: the equalities hold as 32-bit values, and as
  numbers as long as fewer than \<open>2^31\<close> results are stored.
\<close>

theorem getStats_buckets:
  "successful (getStats (record_all rs ResultTracker_init))
     = of_nat (in_bucket (record_all rs ResultTracker_init) Successful)
   \<and> rejected (getStats (record_all rs ResultTracker_init))
     = of_nat (in_bucket (record_all rs ResultTracker_init) Rejected)
   \<and> errors (getStats (record_all rs ResultTracker_init))
     = of_nat (in_bucket (record_all rs ResultTracker_init) Errors)
   \<and> duplicates (getStats (record_all rs ResultTracker_init))
     = of_nat (in_bucket (record_all rs ResultTracker_init) Duplicates)
   \<and> in_bucket (record_all rs ResultTracker_init) Successful
     + in_bucket (record_all rs ResultTracker_init) Rejected
     + in_bucket (record_all rs ResultTracker_init) Errors
     + in_bucket (record_all rs ResultTracker_init) Duplicates
     = card (dom (getByRequestId (record_all rs ResultTracker_init)))
   \<and> totalRequests (getStats (record_all rs ResultTracker_init))
     = successful (getStats (record_all rs ResultTracker_init))
       + rejected (getStats (record_all rs ResultTracker_init))
       + errors (getStats (record_all rs ResultTracker_init))
       + duplicates (getStats (record_all rs ResultTracker_init))
   \<and> totalRequests (getStats (record_all rs ResultTracker_init))
     = of_nat (card (dom (getByRequestId (record_all rs ResultTracker_init))))
   \<and> dom (getByRequestId (record_all rs ResultTracker_init)) = requestId ` set rs
   \<and> card (dom (getByRequestId (record_all rs ResultTracker_init)))
     = length (results (record_all rs ResultTracker_init))
   \<and> (card (dom (getByRequestId (record_all rs ResultTracker_init))) < 2 ^ 31 \<longrightarrow>
        sint (totalRequests (getStats (record_all rs ResultTracker_init)))
          = int (card (dom (getByRequestId (record_all rs ResultTracker_init))))
        \<and> sint (successful (getStats (record_all rs ResultTracker_init)))
          = int (in_bucket (record_all rs ResultTracker_init) Successful)
        \<and> sint (rejected (getStats (record_all rs ResultTracker_init)))
          = int (in_bucket (record_all rs ResultTracker_init) Rejected)
        \<and> sint (errors (getStats (record_all rs ResultTracker_init)))
          = int (in_bucket (record_all rs ResultTracker_init) Errors)
        \<and> sint (duplicates (getStats (record_all rs ResultTracker_init)))
          = int (in_bucket (record_all rs ResultTracker_init) Duplicates))"
proof -
  let ?t = "record_all rs ResultTracker_init"
  let ?st = "getStats ?t"
  note f = foldl_tally [of Stats_init "results ?t"]
  have tot: "totalRequests ?st = of_nat (length (results ?t))"
    using f by (simp add: getStats_def Stats_init_def)
  have s: "successful ?st = of_nat (in_bucket ?t Successful)"
    using f by (simp add: getStats_def Stats_init_def in_bucket_def)
  have r: "rejected ?st = of_nat (in_bucket ?t Rejected)"
    using f by (simp add: getStats_def Stats_init_def in_bucket_def)
  have e: "errors ?st = of_nat (in_bucket ?t Errors)"
    using f by (simp add: getStats_def Stats_init_def in_bucket_def)
  have d: "duplicates ?st = of_nat (in_bucket ?t Duplicates)"
    using f by (simp add: getStats_def Stats_init_def in_bucket_def)
  have part: "in_bucket ?t Successful + in_bucket ?t Rejected + in_bucket ?t Errors
                + in_bucket ?t Duplicates = length (results ?t)"
    unfolding in_bucket_def by (rule bucket_partition)
  have dom: "dom (getByRequestId ?t) = requestId ` set rs"
  proof -
    have "(getByRequestId ?t rid \<noteq> None) = (rid \<in> requestId ` set rs)" for rid
      by (simp only: getByRequestId_def results_record_all latest_Some_iff)
    then show ?thesis by (auto simp: dom_def)
  qed
  have card: "card (dom (getByRequestId ?t)) = length (results ?t)"
  proof -
    have "dom (getByRequestId ?t) = fst ` set (results ?t)"
      by (simp add: getByRequestId_fun dom_map_of_conv_image_fst)
    also have "\<dots> = set (map fst (results ?t))" by simp
    finally show ?thesis
      using distinct_record_all [of rs] by (simp only: distinct_card length_map)
  qed
  have sum: "totalRequests ?st = successful ?st + rejected ?st + errors ?st + duplicates ?st"
    unfolding tot s r e d part [symmetric] by simp
  have le: "in_bucket ?t b \<le> length (results ?t)" for b
    by (simp add: in_bucket_def)
  have ranged: "sint (totalRequests ?st) = int (card (dom (getByRequestId ?t)))
        \<and> sint (successful ?st) = int (in_bucket ?t Successful)
        \<and> sint (rejected ?st) = int (in_bucket ?t Rejected)
        \<and> sint (errors ?st) = int (in_bucket ?t Errors)
        \<and> sint (duplicates ?st) = int (in_bucket ?t Duplicates)"
    if "card (dom (getByRequestId ?t)) < 2 ^ 31"
  proof -
    have n: "length (results ?t) < 2 ^ 31" using that card by simp
    have b: "in_bucket ?t b < 2 ^ 31" for b
      using le [of b] n by (rule le_less_trans)
    show ?thesis
      unfolding tot s r e d card
      using n b by (simp add: sint_of_nat32)
  qed
  have part': "in_bucket ?t Successful + in_bucket ?t Rejected + in_bucket ?t Errors
                + in_bucket ?t Duplicates = card (dom (getByRequestId ?t))"
    using part card by simp
  have tot': "totalRequests ?st = of_nat (card (dom (getByRequestId ?t)))"
    using tot card by simp
  have imp: "card (dom (getByRequestId ?t)) < 2 ^ 31 \<longrightarrow>
        sint (totalRequests ?st) = int (card (dom (getByRequestId ?t)))
        \<and> sint (successful ?st) = int (in_bucket ?t Successful)
        \<and> sint (rejected ?st) = int (in_bucket ?t Rejected)
        \<and> sint (errors ?st) = int (in_bucket ?t Errors)
        \<and> sint (duplicates ?st) = int (in_bucket ?t Duplicates)"
    using ranged by blast
  show ?thesis
    by (intro conjI) (fact s r e d part' sum tot' dom card imp)+
qed


theorem getStats_buckets_witness:
  "card (dom (getByRequestId (record_all
       [executed_result, rejected_result, duplicate_from_other_client] ResultTracker_init))) = 2
   \<and> sint (totalRequests (getStats (record_all
       [executed_result, rejected_result, duplicate_from_other_client] ResultTracker_init))) = 2
   \<and> sint (duplicates (getStats (record_all
       [executed_result, rejected_result, duplicate_from_other_client] ResultTracker_init))) = 1
   \<and> sint (errors (getStats (record_all
       [executed_result, rejected_result, duplicate_from_other_client] ResultTracker_init))) = 1"
proof -
  let ?t = "record_all [executed_result, rejected_result, duplicate_from_other_client]
              ResultTracker_init"
  have res: "results ?t = [(''C1-000000'', duplicate_from_other_client),
                           (''C1-000001'', rejected_result)]"
    by (simp add: record_all_def record_result_def ResultTracker_init_def executed_result_def
          rejected_result_def duplicate_from_other_client_def makeError_def broker_result_def
          example_request_def)
  have b: "in_bucket ?t Duplicates = 1" "in_bucket ?t Errors = 1"
    unfolding in_bucket_def res
    by (simp_all add: rejected_result_def duplicate_from_other_client_def makeError_def)
  have len: "length (results ?t) = 2" by (simp only: res) simp
  note T = getStats_buckets [of "[executed_result, rejected_result, duplicate_from_other_client]"]
  from T have card: "card (dom (getByRequestId ?t)) = length (results ?t)"
    by (elim conjE)
  from T have imp: "card (dom (getByRequestId ?t)) < 2 ^ 31 \<longrightarrow>
        sint (totalRequests (getStats ?t)) = int (card (dom (getByRequestId ?t)))
        \<and> sint (successful (getStats ?t)) = int (in_bucket ?t Successful)
        \<and> sint (rejected (getStats ?t)) = int (in_bucket ?t Rejected)
        \<and> sint (errors (getStats ?t)) = int (in_bucket ?t Errors)
        \<and> sint (duplicates (getStats ?t)) = int (in_bucket ?t Duplicates)"
    by (elim conjE)
  have two: "card (dom (getByRequestId ?t)) = 2" using card len by simp
  then have "card (dom (getByRequestId ?t)) < 2 ^ 31" by simp
  with imp have "sint (totalRequests (getStats ?t)) = int (card (dom (getByRequestId ?t)))
        \<and> sint (errors (getStats ?t)) = int (in_bucket ?t Errors)
        \<and> sint (duplicates (getStats ?t)) = int (in_bucket ?t Duplicates)"
    by blast
  then show ?thesis using two b by simp
qed

end
